theory Spec2Isabelle
  imports Main "HOL-Library.Word"
begin

section \<open>JavaScript strings\<close>

text \<open>
  A JavaScript string is a sequence of 16-bit code units; \<open>.length\<close> counts code
  units, and a regular expression without the \<open>u\<close> flag matches code units. Field
  values are therefore lists of 16-bit words. Program constants (messages, error codes)
  are written as HOL strings; \<open>js\<close> turns an ASCII literal into a field value.
\<close>

type_synonym jschar = "16 word"
type_synonym jsstring = "jschar list"

definition js :: "string \<Rightarrow> jsstring" where
  "js s = map of_char s"

text \<open>
  The set matched by \<open>\s\<close> and stripped by \<open>String.prototype.trim\<close>: WhiteSpace
  and LineTerminator of ECMAScript.
\<close>

definition js_whitespace :: "jschar \<Rightarrow> bool" where
  "js_whitespace c =
     ((0x09 \<le> c \<and> c \<le> 0x0D) \<or> c = 0x20 \<or> c = 0xA0 \<or> c = 0x1680
      \<or> (0x2000 \<le> c \<and> c \<le> 0x200A) \<or> c = 0x2028 \<or> c = 0x2029
      \<or> c = 0x202F \<or> c = 0x205F \<or> c = 0x3000 \<or> c = 0xFEFF)"

definition trim :: "jsstring \<Rightarrow> jsstring" where
  "trim s = rev (dropWhile js_whitespace (rev (dropWhile js_whitespace s)))"

section \<open>Regular expressions of the validators\<close>

text \<open>
  Every pattern in the sources is \<open>^ a1 a2 ... an $\<close> where each \<open>ai\<close> is a character
  class (or a literal) with a repetition count. \<open>regex_test\<close> is
  \<open>RegExp.prototype.test\<close> for such an anchored pattern: some way of splitting the
  whole input among the items exists.
\<close>

datatype cclass = Range jschar jschar | Single jschar | Space_class

datatype item = Item (cls: "cclass list") (lo: nat) (hi: "nat option")

fun in_cclass :: "jschar \<Rightarrow> cclass \<Rightarrow> bool" where
  "in_cclass c (Range a b) = (a \<le> c \<and> c \<le> b)"
| "in_cclass c (Single a) = (c = a)"
| "in_cclass c Space_class = js_whitespace c"

definition in_class :: "cclass list \<Rightarrow> jschar \<Rightarrow> bool" where
  "in_class cs c = list_ex (in_cclass c) cs"

definition upper_count :: "item \<Rightarrow> jsstring \<Rightarrow> nat" where
  "upper_count a s = (case hi a of None \<Rightarrow> length s | Some h \<Rightarrow> min h (length s))"

fun regex_test :: "item list \<Rightarrow> jsstring \<Rightarrow> bool" where
  "regex_test [] s = (s = [])"
| "regex_test (a # as) s =
     list_ex (\<lambda>k. list_all (in_class (cls a)) (take k s) \<and> regex_test as (drop k s))
       [lo a ..< Suc (upper_count a s)]"

abbreviation upper_AZ :: cclass where "upper_AZ \<equiv> Range 0x41 0x5A"
abbreviation lower_az :: cclass where "lower_az \<equiv> Range 0x61 0x7A"
abbreviation digit_09 :: cclass where "digit_09 \<equiv> Range 0x30 0x39"

definition lit :: "char \<Rightarrow> item" where
  "lit c = Item [Single (of_char c)] 1 (Some 1)"

text \<open>\<open>/^[a-zA-Z\s]+$/\<close>\<close>
definition name_re :: "item list" where
  "name_re = [Item [lower_az, upper_AZ, Space_class] 1 None]"

text \<open>\<open>/^[A-Z]{2,4}-[0-9]{2,4}$/\<close>\<close>
definition productLine_re :: "item list" where
  "productLine_re = [Item [upper_AZ] 2 (Some 4), lit CHR ''-'', Item [digit_09] 2 (Some 4)]"

text \<open>\<open>/^ER[0-9]{6}$/\<close>\<close>
definition erCode_re :: "item list" where
  "erCode_re = [lit CHR ''E'', lit CHR ''R'', Item [digit_09] 6 (Some 6)]"

text \<open>\<open>/^[A-Z]{2}[0-9]{4}[A-Z]?$/\<close>\<close>
definition modelNumber_re :: "item list" where
  "modelNumber_re = [Item [upper_AZ] 2 (Some 2), Item [digit_09] 4 (Some 4), Item [upper_AZ] 0 (Some 1)]"

section \<open>Client: field validators\<close>

record IValidationResult =
  isValid :: bool
  message :: string

definition validateName :: "jsstring \<Rightarrow> IValidationResult" where
  "validateName v =
     (if v = [] then \<lparr>isValid = False, message = ''Name is required''\<rparr>
      else if length v < 2 then \<lparr>isValid = False, message = ''Name must be at least 2 characters''\<rparr>
      else if \<not> regex_test name_re v
        then \<lparr>isValid = False, message = ''Name can only contain letters and spaces''\<rparr>
      else \<lparr>isValid = True, message = ''Valid name format''\<rparr>)"

definition validateProductLine :: "jsstring \<Rightarrow> IValidationResult" where
  "validateProductLine v =
     (if v = [] then \<lparr>isValid = False, message = ''Product Line is required''\<rparr>
      else if length v < 3
        then \<lparr>isValid = False, message = ''Product Line must be at least 3 characters''\<rparr>
      else if \<not> regex_test productLine_re v
        then \<lparr>isValid = False, message = ''Format: XX-99 (2-4 letters, dash, 2-4 numbers)''\<rparr>
      else \<lparr>isValid = True, message = ''Valid product line format''\<rparr>)"

definition validateERCode :: "jsstring \<Rightarrow> IValidationResult" where
  "validateERCode v =
     (if v = [] then \<lparr>isValid = False, message = ''ER Code is required''\<rparr>
      else if \<not> regex_test erCode_re v
        then \<lparr>isValid = False, message = ''Format: ER followed by 6 digits (e.g., ER123456)''\<rparr>
      else \<lparr>isValid = True, message = ''Valid ER code format''\<rparr>)"

definition validateDescription :: "jsstring \<Rightarrow> IValidationResult" where
  "validateDescription v =
     (if v = [] then \<lparr>isValid = False, message = ''Description is required''\<rparr>
      else if length v < 10
        then \<lparr>isValid = False, message = ''Description must be at least 10 characters''\<rparr>
      else if length v > 500
        then \<lparr>isValid = False, message = ''Description must be less than 500 characters''\<rparr>
      else \<lparr>isValid = True, message = ''Valid description length''\<rparr>)"

definition validateModelNumber :: "jsstring \<Rightarrow> IValidationResult" where
  "validateModelNumber v =
     (if v = [] then \<lparr>isValid = False, message = ''Model Number is required''\<rparr>
      else if \<not> regex_test modelNumber_re v
        then \<lparr>isValid = False,
               message = ''Format: 2 letters + 4 digits + optional letter (e.g., AB1234C)''\<rparr>
      else \<lparr>isValid = True, message = ''Valid model number format''\<rparr>)"

section \<open>Server: input sanitisation\<close>

text \<open>
  \<open>validator.escape\<close> of the validator package, as its source does it: eight global
  replacements in this order, the ampersand first.
\<close>

definition replace_all :: "jschar \<Rightarrow> string \<Rightarrow> jsstring \<Rightarrow> jsstring" where
  "replace_all c r s = concat (map (\<lambda>x. if x = c then js r else [x]) s)"

definition validator_escape :: "jsstring \<Rightarrow> jsstring" where
  "validator_escape s =
     replace_all 0x60 ''&#96;''
      (replace_all 0x5C ''&#x5C;''
       (replace_all 0x2F ''&#x2F;''
        (replace_all 0x3E ''&gt;''
         (replace_all 0x3C ''&lt;''
          (replace_all 0x27 ''&#x27;''
           (replace_all 0x22 ''&quot;''
            (replace_all 0x26 ''&amp;'' s)))))))"

text \<open>
  The request body, after \<open>express.json\<close>: the keys the client's payload has, each
  absent (\<open>None\<close>) or a JSON string. The client's \<open>submittedAt\<close> is a \<open>Date\<close>, which
  JSON carries as a string.
\<close>

record body =
  b_name :: "jsstring option"
  b_productLine :: "jsstring option"
  b_erCode :: "jsstring option"
  b_description :: "jsstring option"
  b_modelNumber :: "jsstring option"
  b_submittedAt :: "jsstring option"

definition sanitize :: "jsstring \<Rightarrow> jsstring" where
  "sanitize v = validator_escape (trim v)"

definition sanitizeInput :: "body \<Rightarrow> body" where
  "sanitizeInput b =
     \<lparr>b_name = map_option sanitize (b_name b),
      b_productLine = map_option sanitize (b_productLine b),
      b_erCode = map_option sanitize (b_erCode b),
      b_description = map_option sanitize (b_description b),
      b_modelNumber = map_option sanitize (b_modelNumber b),
      b_submittedAt = map_option sanitize (b_submittedAt b)\<rparr>"

section \<open>Server: the schema\<close>

text \<open>
  A document of the collection. A path of a Mongoose document may be undefined
  (\<open>None\<close>); the \<open>required\<close> validators exclude that on save. \<open>submittedAt\<close> is a
  \<open>Date\<close>, in milliseconds.
\<close>

record 'oid FormSubmission =
  d_id :: 'oid
  d_name :: "jsstring option"
  d_productLine :: "jsstring option"
  d_erCode :: "jsstring option"
  d_description :: "jsstring option"
  d_modelNumber :: "jsstring option"
  d_submittedAt :: int

datatype validator = Required | Minlength nat | Maxlength nat | Enum "jsstring list"
  | Validate "item list"

text \<open>
  What Mongoose's built-in validators check. An undefined value passes every validator
  but \<open>required\<close>; \<open>required\<close> on a String path also refuses the empty string.
\<close>

fun validator_ok :: "validator \<Rightarrow> jsstring option \<Rightarrow> bool" where
  "validator_ok Required None = False"
| "validator_ok Required (Some v) = (v \<noteq> [])"
| "validator_ok _ None = True"
| "validator_ok (Minlength n) (Some v) = (n \<le> length v)"
| "validator_ok (Maxlength n) (Some v) = (length v \<le> n)"
| "validator_ok (Enum vs) (Some v) = (v \<in> set vs)"
| "validator_ok (Validate re) (Some v) = regex_test re v"

definition productLine_values :: "jsstring list" where
  "productLine_values = map js
     [''12'', ''13'', ''15'', ''24'', ''25'', ''45'', ''80'', ''1A'', ''1B'', ''1H'', ''3E'', ''4W'', ''8F'',
      ''AE'', ''AV'', ''BL'', ''CM'', ''CN'', ''DI'', ''DT'', ''EG'', ''GM'', ''GM(EIP)'', ''LB'',
      ''MMA'', ''NA'', ''NS'', ''NT'', ''QB'', ''QW'', ''QX'', ''SP'', ''TG'', ''TJ'', ''WN Kobe'',
      ''WN PMPS'', ''WN Soco'', ''WN TAO'']"

text \<open>The validators of each path, \<open>required\<close> first, with their messages.\<close>

definition name_validators :: "(validator \<times> string) list" where
  "name_validators =
     [(Required, ''Name is required''),
      (Minlength 2, ''Name must be at least 2 characters''),
      (Maxlength 100, ''Name must be less than 100 characters''),
      (Validate name_re, ''Name can only contain letters and spaces'')]"

definition productLine_validators :: "(validator \<times> string) list" where
  "productLine_validators =
     [(Required, ''Product Line is required''),
      (Enum productLine_values, ''Please select a valid product line'')]"

definition erCode_validators :: "(validator \<times> string) list" where
  "erCode_validators =
     [(Required, ''ER Code is required''),
      (Validate erCode_re, ''ER Code format must be ER followed by 6 digits'')]"

definition description_validators :: "(validator \<times> string) list" where
  "description_validators =
     [(Required, ''Description is required''),
      (Minlength 10, ''Description must be at least 10 characters''),
      (Maxlength 500, ''Description must be less than 500 characters'')]"

definition modelNumber_validators :: "(validator \<times> string) list" where
  "modelNumber_validators =
     [(Required, ''Model Number is required''),
      (Validate modelNumber_re,
       ''Model Number format must be 2 letters + 4 digits + optional letter'')]"

definition formSubmissionSchema ::
  "(string \<times> ('oid FormSubmission \<Rightarrow> jsstring option) \<times> (validator \<times> string) list) list" where
  "formSubmissionSchema =
     [(''name'', d_name, name_validators),
      (''productLine'', d_productLine, productLine_validators),
      (''erCode'', d_erCode, erCode_validators),
      (''description'', d_description, description_validators),
      (''modelNumber'', d_modelNumber, modelNumber_validators)]"

text \<open>
  Validation of one path reports its first failing validator; validation of a document
  collects one error per failing path, keyed by the path.
\<close>

fun path_error :: "(validator \<times> string) list \<Rightarrow> jsstring option \<Rightarrow> string option" where
  "path_error [] v = None"
| "path_error ((k, m) # vs) v = (if validator_ok k v then path_error vs v else Some m)"

definition validate_doc :: "'oid FormSubmission \<Rightarrow> (string \<times> string) list" where
  "validate_doc d =
     List.map_filter (\<lambda>(path, get, vs). map_option (Pair path) (path_error vs (get d)))
       formSubmissionSchema"

section \<open>Server: the store\<close>

text \<open>
  The collection behind the model \<open>FormSubmission\<close>, with a count of the operations
  issued against it. What a request cannot decide comes with the request: the clock,
  the identifier the driver generates for a new document, and whether the store is
  failing (then every operation throws, with that message).
\<close>

record 'oid store =
  docs :: "'oid FormSubmission list"
  queries :: nat

record 'oid server_env =
  now :: int
  fresh_id :: 'oid
  store_fault :: "string option"

datatype save_error = ValidationError "(string \<times> string) list" | StoreError string

definition issue :: "'oid store \<Rightarrow> 'oid store" where
  "issue st = st\<lparr>queries := Suc (queries st)\<rparr>"

text \<open>
  \<open>doc.save()\<close>: validation first; then the insert, which the unique index on the
  identifier refuses for an identifier already present.
\<close>

definition save ::
  "'oid server_env \<Rightarrow> 'oid FormSubmission \<Rightarrow> 'oid store
     \<Rightarrow> (save_error + 'oid FormSubmission) \<times> 'oid store" where
  "save env d st =
     (case validate_doc d of
        e # es \<Rightarrow> (Inl (ValidationError (e # es)), st)
      | [] \<Rightarrow>
          (case store_fault env of
             Some m \<Rightarrow> (Inl (StoreError m), issue st)
           | None \<Rightarrow>
               if d_id d \<in> set (map d_id (docs st))
               then (Inl (StoreError ''E11000 duplicate key error''), issue st)
               else (Inr d, issue (st\<lparr>docs := docs st @ [d]\<rparr>))))"

text \<open>\<open>find().sort({submittedAt: -1}).skip(skip).limit(limit)\<close>: the store refuses a
  negative skip, and reads a negative limit as its absolute value.\<close>

definition find_sort_skip_limit ::
  "'oid server_env \<Rightarrow> int \<Rightarrow> int \<Rightarrow> 'oid store
     \<Rightarrow> (string + 'oid FormSubmission list) \<times> 'oid store" where
  "find_sort_skip_limit env skip limit st =
     (case store_fault env of
        Some m \<Rightarrow> (Inl m, issue st)
      | None \<Rightarrow>
          if skip < 0 then (Inl ''skip value must be non-negative'', issue st)
          else (Inr (take (nat \<bar>limit\<bar>)
                      (drop (nat skip) (sort_key (\<lambda>d. - d_submittedAt d) (docs st)))),
                issue st))"

definition countDocuments :: "'oid server_env \<Rightarrow> 'oid store \<Rightarrow> (string + int) \<times> 'oid store" where
  "countDocuments env st =
     (case store_fault env of
        Some m \<Rightarrow> (Inl m, issue st)
      | None \<Rightarrow> (Inr (int (length (docs st))), issue st))"

definition findById ::
  "'oid server_env \<Rightarrow> 'oid \<Rightarrow> 'oid store
     \<Rightarrow> (string + 'oid FormSubmission option) \<times> 'oid store" where
  "findById env i st =
     (case store_fault env of
        Some m \<Rightarrow> (Inl m, issue st)
      | None \<Rightarrow> (Inr (find (\<lambda>d. d_id d = i) (docs st)), issue st))"

fun delete_first :: "('a \<Rightarrow> bool) \<Rightarrow> 'a list \<Rightarrow> 'a list" where
  "delete_first P [] = []"
| "delete_first P (x # xs) = (if P x then xs else x # delete_first P xs)"

definition findByIdAndDelete ::
  "'oid server_env \<Rightarrow> 'oid \<Rightarrow> 'oid store
     \<Rightarrow> (string + 'oid FormSubmission option) \<times> 'oid store" where
  "findByIdAndDelete env i st =
     (case store_fault env of
        Some m \<Rightarrow> (Inl m, issue st)
      | None \<Rightarrow>
          (Inr (find (\<lambda>d. d_id d = i) (docs st)),
           issue (st\<lparr>docs := delete_first (\<lambda>d. d_id d = i) (docs st)\<rparr>)))"

section \<open>Server: the handlers\<close>

record pagination =
  current :: int
  total :: int
  hasMore :: bool

datatype 'oid res_data = No_data | One "'oid FormSubmission" | Many "'oid FormSubmission list"

record 'oid response =
  r_status :: nat
  r_success :: bool
  r_message :: "string option"
  r_errors :: "string list option"
  r_error :: "string option"
  r_data :: "'oid res_data"
  r_pagination :: "pagination option"

definition failure :: "nat \<Rightarrow> string \<Rightarrow> 'oid response" where
  "failure code m =
     \<lparr>r_status = code, r_success = False, r_message = Some m, r_errors = None,
      r_error = None, r_data = No_data, r_pagination = None\<rparr>"

text \<open>\<open>!v\<close> for a value that is undefined or a string.\<close>

definition falsy :: "jsstring option \<Rightarrow> bool" where
  "falsy v = (v = None \<or> v = Some [])"

text \<open>
  \<open>new FormSubmission({...formData, submittedAt: new Date()})\<close>: the later key of the
  object literal wins, so the body's own \<open>submittedAt\<close> is dropped and the document
  gets the date passed here.
\<close>

definition new_FormSubmission :: "'oid server_env \<Rightarrow> body \<Rightarrow> int \<Rightarrow> 'oid FormSubmission" where
  "new_FormSubmission env formData date =
     \<lparr>d_id = fresh_id env, d_name = b_name formData, d_productLine = b_productLine formData,
      d_erCode = b_erCode formData, d_description = b_description formData,
      d_modelNumber = b_modelNumber formData, d_submittedAt = date\<rparr>"

text \<open>\<open>app.post('/api/submissions', sanitizeInput, ...)\<close>\<close>

definition post_submissions ::
  "'oid server_env \<Rightarrow> body \<Rightarrow> 'oid store \<Rightarrow> 'oid response \<times> 'oid store" where
  "post_submissions env req_body st =
     (let formData = sanitizeInput req_body in
      if falsy (b_name formData) \<or> falsy (b_productLine formData) \<or> falsy (b_erCode formData)
         \<or> falsy (b_description formData) \<or> falsy (b_modelNumber formData)
      then (failure 400 ''All fields are required'', st)
      else
        (case save env (new_FormSubmission env formData (now env)) st of
           (Inr newSubmission, st') \<Rightarrow>
             (\<lparr>r_status = 201, r_success = True,
               r_message = Some ''Form submitted successfully'', r_errors = None,
               r_error = None, r_data = One newSubmission, r_pagination = None\<rparr>, st')
         | (Inl (ValidationError es), st') \<Rightarrow>
             ((failure 400 ''Validation failed'')\<lparr>r_errors := Some (map snd es)\<rparr>, st')
         | (Inl (StoreError m), st') \<Rightarrow>
             ((failure 500 ''Failed to save form submission'')\<lparr>r_error := Some m\<rparr>, st')))"

text \<open>
  \<open>parseInt\<close> of a query parameter (\<open>None\<close> is NaN): leading white space, a sign, an
  optional \<open>0x\<close> prefix, then the longest run of digits of the radix. Integers are
  exact here; the rounding of doubles beyond \<open>2^53\<close> is not modelled.
\<close>

definition digit_value :: "jschar \<Rightarrow> nat" where
  "digit_value c =
     (if 0x30 \<le> c \<and> c \<le> 0x39 then unat c - 0x30
      else if 0x61 \<le> c \<and> c \<le> 0x7A then unat c - 0x61 + 10
      else if 0x41 \<le> c \<and> c \<le> 0x5A then unat c - 0x41 + 10
      else 36)"

definition digits_value :: "nat \<Rightarrow> jsstring \<Rightarrow> int" where
  "digits_value radix z = foldl (\<lambda>acc c. acc * int radix + int (digit_value c)) 0 z"

definition parseInt :: "jsstring option \<Rightarrow> int option" where
  "parseInt x =
     (case x of
        None \<Rightarrow> None
      | Some s \<Rightarrow>
          (let s1 = dropWhile js_whitespace s;
               sign = (case s1 of c # r \<Rightarrow> if c = 0x2D then (-1::int) else 1 | [] \<Rightarrow> 1);
               s2 = (case s1 of c # r \<Rightarrow> if c = 0x2D \<or> c = 0x2B then r else s1 | [] \<Rightarrow> s1);
               hex = (case s2 of c # d # r \<Rightarrow> c = 0x30 \<and> (d = 0x78 \<or> d = 0x58) | _ \<Rightarrow> False);
               radix = (if hex then 16 else 10);
               s3 = (if hex then drop 2 s2 else s2);
               z = takeWhile (\<lambda>c. digit_value c < radix) s3
           in if z = [] then None else Some (sign * digits_value radix z)))"

text \<open>\<open>parseInt(v) || d\<close>: NaN and zero are falsy.\<close>

definition or_default :: "int option \<Rightarrow> int \<Rightarrow> int" where
  "or_default v d = (case v of None \<Rightarrow> d | Some n \<Rightarrow> if n = 0 then d else n)"

text \<open>\<open>Math.ceil(a / b)\<close> for integers, \<open>b\<close> not zero.\<close>

definition ceil_div :: "int \<Rightarrow> int \<Rightarrow> int" where
  "ceil_div a b = - ((- a) div b)"

record query =
  q_page :: "jsstring option"
  q_limit :: "jsstring option"

text \<open>\<open>app.get('/api/submissions', ...)\<close>\<close>

definition get_submissions ::
  "'oid server_env \<Rightarrow> query \<Rightarrow> 'oid store \<Rightarrow> 'oid response \<times> 'oid store" where
  "get_submissions env q st =
     (let page = or_default (parseInt (q_page q)) 1;
          limit = or_default (parseInt (q_limit q)) 10;
          skip = (page - 1) * limit
      in case find_sort_skip_limit env skip limit st of
           (Inl m, st1) \<Rightarrow> ((failure 500 ''Failed to fetch submissions'')\<lparr>r_error := Some m\<rparr>, st1)
         | (Inr submissions, st1) \<Rightarrow>
             (case countDocuments env st1 of
                (Inl m, st2) \<Rightarrow>
                  ((failure 500 ''Failed to fetch submissions'')\<lparr>r_error := Some m\<rparr>, st2)
              | (Inr n, st2) \<Rightarrow>
                  (\<lparr>r_status = 200, r_success = True, r_message = None, r_errors = None,
                    r_error = None, r_data = Many submissions,
                    r_pagination = Some \<lparr>current = page, total = ceil_div n limit,
                       hasMore = (skip + int (length submissions) < n)\<rparr>\<rparr>, st2)))"

text \<open>
  \<open>app.get('/api/submissions/:id', ...)\<close> and \<open>app.delete('/api/submissions/:id', ...)\<close>.
  \<open>mongoose.Types.ObjectId.isValid\<close> and the cast of a valid string to an identifier
  belong to the driver; the handlers take them as \<open>valid_id\<close> and \<open>cast\<close>.
\<close>

definition get_submission ::
  "(jsstring \<Rightarrow> bool) \<Rightarrow> (jsstring \<Rightarrow> 'oid) \<Rightarrow> 'oid server_env \<Rightarrow> jsstring \<Rightarrow> 'oid store
     \<Rightarrow> 'oid response \<times> 'oid store" where
  "get_submission valid_id cast env i st =
     (if \<not> valid_id i then (failure 400 ''Invalid submission ID'', st)
      else
        (case findById env (cast i) st of
           (Inl m, st') \<Rightarrow> ((failure 500 ''Failed to fetch submission'')\<lparr>r_error := Some m\<rparr>, st')
         | (Inr None, st') \<Rightarrow> (failure 404 ''Submission not found'', st')
         | (Inr (Some submission), st') \<Rightarrow>
             (\<lparr>r_status = 200, r_success = True, r_message = None, r_errors = None,
               r_error = None, r_data = One submission, r_pagination = None\<rparr>, st')))"

definition delete_submission ::
  "(jsstring \<Rightarrow> bool) \<Rightarrow> (jsstring \<Rightarrow> 'oid) \<Rightarrow> 'oid server_env \<Rightarrow> jsstring \<Rightarrow> 'oid store
     \<Rightarrow> 'oid response \<times> 'oid store" where
  "delete_submission valid_id cast env i st =
     (if \<not> valid_id i then (failure 400 ''Invalid submission ID'', st)
      else
        (case findByIdAndDelete env (cast i) st of
           (Inl m, st') \<Rightarrow> ((failure 500 ''Failed to delete submission'')\<lparr>r_error := Some m\<rparr>, st')
         | (Inr None, st') \<Rightarrow> (failure 404 ''Submission not found'', st')
         | (Inr (Some submission), st') \<Rightarrow>
             (\<lparr>r_status = 200, r_success = True,
               r_message = Some ''Submission deleted successfully'', r_errors = None,
               r_error = None, r_data = No_data, r_pagination = None\<rparr>, st')))"

section \<open>Client: the API service\<close>

record IFormData =
  name :: jsstring
  productLine :: jsstring
  erCode :: jsstring
  description :: jsstring
  modelNumber :: jsstring

text \<open>
  What \<open>submitForm\<close> reads of a rejected request: \<open>error.code\<close>, \<open>error.message\<close> and
  \<open>error.response?.data?.message\<close>, each possibly undefined.
\<close>

record AxiosError =
  code :: "string option"
  err_message :: "string option"
  response_message :: "string option"

text \<open>A resolved request carries \<open>response.data.data\<close>.\<close>

datatype 'd outcome = Resolved 'd | Rejected AxiosError

record 'd IApiResponse =
  success :: bool
  res_message :: string
  res_data :: "'d option"

text \<open>
  The body of a POST: the form fields and the client's \<open>new Date()\<close>. The network is
  given by the outcome of the \<open>n\<close>-th request and the client's clock at that request;
  the client's effects are the requests sent and the milliseconds slept.
\<close>

record payload =
  p_formData :: IFormData
  p_submittedAt :: int

record 'd network =
  respond :: "nat \<Rightarrow> 'd outcome"
  client_now :: "nat \<Rightarrow> int"

record effects =
  sent :: "payload list"
  slept :: nat

text \<open>\<open>m\<close> when it is a non-empty string, else \<open>d\<close>.\<close>

definition or_else :: "string option \<Rightarrow> string \<Rightarrow> string" where
  "or_else m d = (case m of None \<Rightarrow> d | Some t \<Rightarrow> if t \<noteq> [] then t else d)"

definition generic_message :: string where
  "generic_message = ''Failed to submit form. Please try again later.''"

definition errorMessage :: "AxiosError \<Rightarrow> string" where
  "errorMessage e = or_else (response_message e) (or_else (err_message e) generic_message)"

function submitForm ::
  "'d network \<Rightarrow> IFormData \<Rightarrow> int \<Rightarrow> effects \<Rightarrow> 'd IApiResponse \<times> effects" where
  "submitForm w fd retries eff =
     (let n = length (sent eff);
          eff1 = eff\<lparr>sent := sent eff @ [\<lparr>p_formData = fd, p_submittedAt = client_now w n\<rparr>]\<rparr>
      in case respond w n of
           Resolved d \<Rightarrow>
             (\<lparr>success = True, res_message = ''Form submitted successfully'',
               res_data = Some d\<rparr>, eff1)
         | Rejected e \<Rightarrow>
             if retries > 0 \<and> code e = Some ''NETWORK_ERROR''
             then submitForm w fd (retries - 1) (eff1\<lparr>slept := slept eff1 + 1000\<rparr>)
             else (\<lparr>success = False, res_message = errorMessage e, res_data = None\<rparr>, eff1))"
  by pat_completeness auto
termination
  by (relation "measure (\<lambda>(w, fd, retries, eff). nat retries)") auto

section \<open>Client: the form\<close>

datatype toast = Success_toast string string | Error_toast string string

record ui_state =
  formData :: IFormData
  isFormValid :: bool
  isSubmitted :: bool
  isDraftSaved :: bool
  hasDraft :: bool
  isSubmitting :: bool
  localStorage :: "string \<rightharpoonup> jsstring"
  toasts :: "toast list"

definition DRAFT_KEY :: string where
  "DRAFT_KEY = ''tis-validation-draft''"

definition empty_form :: IFormData where
  "empty_form = \<lparr>name = [], productLine = [], erCode = [], description = [], modelNumber = []\<rparr>"

definition validations :: "IFormData \<Rightarrow> IValidationResult list" where
  "validations fd =
     [validateName (name fd), validateProductLine (productLine fd), validateERCode (erCode fd),
      validateDescription (description fd), validateModelNumber (modelNumber fd)]"

definition Object_values :: "IFormData \<Rightarrow> jsstring list" where
  "Object_values fd = [name fd, productLine fd, erCode fd, description fd, modelNumber fd]"

text \<open>The effect that runs after every change of \<open>formData\<close>.\<close>

definition allValid :: "IFormData \<Rightarrow> bool" where
  "allValid fd =
     (list_all isValid (validations fd) \<and> list_all (\<lambda>v. trim v \<noteq> []) (Object_values fd))"

definition validity_effect :: "ui_state \<Rightarrow> ui_state" where
  "validity_effect st =
     st\<lparr>isFormValid := allValid (formData st),
        isDraftSaved := (if isDraftSaved st then False else isDraftSaved st)\<rparr>"

datatype field = Name | ProductLine | ErCode | Description | ModelNumber

fun set_field :: "field \<Rightarrow> jsstring \<Rightarrow> IFormData \<Rightarrow> IFormData" where
  "set_field Name v fd = fd\<lparr>name := v\<rparr>"
| "set_field ProductLine v fd = fd\<lparr>productLine := v\<rparr>"
| "set_field ErCode v fd = fd\<lparr>erCode := v\<rparr>"
| "set_field Description v fd = fd\<lparr>description := v\<rparr>"
| "set_field ModelNumber v fd = fd\<lparr>modelNumber := v\<rparr>"

definition handleInputChange :: "field \<Rightarrow> jsstring \<Rightarrow> ui_state \<Rightarrow> ui_state" where
  "handleInputChange f v st =
     validity_effect (st\<lparr>formData := set_field f v (formData st), isSubmitted := False\<rparr>)"

text \<open>The state of the first render, after its effects, when no draft is stored.\<close>

definition initial_state :: "(string \<rightharpoonup> jsstring) \<Rightarrow> ui_state" where
  "initial_state ls =
     validity_effect
       \<lparr>formData = empty_form, isFormValid = False, isSubmitted = False, isDraftSaved = False,
        hasDraft = False, isSubmitting = False, localStorage = ls, toasts = []\<rparr>"

definition handleSubmit ::
  "'d network \<Rightarrow> ui_state \<Rightarrow> effects \<Rightarrow> ui_state \<times> effects" where
  "handleSubmit w st eff =
     (if isFormValid st then
        (case submitForm w (formData st) 3 eff of
           (result, eff') \<Rightarrow>
             (if success result
              then st\<lparr>isSubmitted := True,
                      localStorage := (localStorage st)(DRAFT_KEY := None),
                      hasDraft := False,
                      toasts := toasts st @ [Success_toast ''Form Submitted Successfully!''
                         ''Your data has been saved to the database.''],
                      isSubmitting := False\<rparr>
              else st\<lparr>toasts := toasts st @ [Error_toast ''Submission Failed'' (res_message result)],
                      isSubmitting := False\<rparr>,
              eff'))
      else (st, eff))"

section \<open>Client: the draft in local storage\<close>

text \<open>
  \<open>JSON.stringify\<close> of the form data and \<open>JSON.parse\<close>, after ECMA-262 (QuoteJSONString,
  SerializeJSONObject) and the JSON grammar.
\<close>

definition is_lead :: "jschar \<Rightarrow> bool" where
  "is_lead c = (0xD800 \<le> c \<and> c \<le> 0xDBFF)"

definition is_trail :: "jschar \<Rightarrow> bool" where
  "is_trail c = (0xDC00 \<le> c \<and> c \<le> 0xDFFF)"

definition hex_digit :: "nat \<Rightarrow> jschar" where
  "hex_digit n = of_nat (if n < 10 then 0x30 + n else 0x57 + n)"

text \<open>\<open>\uXXXX\<close> with lower-case digits.\<close>

definition unicode_escape :: "jschar \<Rightarrow> jsstring" where
  "unicode_escape c =
     [0x5C, 0x75, hex_digit (unat c div 4096), hex_digit (unat c div 256 mod 16),
      hex_digit (unat c div 16 mod 16), hex_digit (unat c mod 16)]"

definition quote_char :: "jschar \<Rightarrow> jsstring" where
  "quote_char c =
     (if c = 0x08 then [0x5C, 0x62] else if c = 0x09 then [0x5C, 0x74]
      else if c = 0x0A then [0x5C, 0x6E] else if c = 0x0C then [0x5C, 0x66]
      else if c = 0x0D then [0x5C, 0x72] else if c = 0x22 then [0x5C, 0x22]
      else if c = 0x5C then [0x5C, 0x5C]
      else if c < 0x20 then unicode_escape c
      else [c])"

text \<open>A surrogate pair is copied; a lone surrogate is escaped.\<close>

fun quote_units :: "jsstring \<Rightarrow> jsstring" where
  "quote_units [] = []"
| "quote_units [c] = (if is_lead c \<or> is_trail c then unicode_escape c else quote_char c)"
| "quote_units (c # d # cs) =
     (if is_lead c \<and> is_trail d then c # d # quote_units cs
      else if is_lead c \<or> is_trail c then unicode_escape c @ quote_units (d # cs)
      else quote_char c @ quote_units (d # cs))"

definition QuoteJSONString :: "jsstring \<Rightarrow> jsstring" where
  "QuoteJSONString s = 0x22 # quote_units s @ [0x22]"

definition member :: "string \<Rightarrow> jsstring \<Rightarrow> jsstring" where
  "member k v = QuoteJSONString (js k) @ 0x3A # QuoteJSONString v"

definition JSON_stringify :: "IFormData \<Rightarrow> jsstring" where
  "JSON_stringify fd =
     0x7B # member ''name'' (name fd) @ 0x2C # member ''productLine'' (productLine fd)
       @ 0x2C # member ''erCode'' (erCode fd) @ 0x2C # member ''description'' (description fd)
       @ 0x2C # member ''modelNumber'' (modelNumber fd) @ [0x7D]"

datatype json = JNull | JBool bool | JNumber jsstring | JString jsstring
  | JArray "json list" | JObject "(jsstring \<times> json) list"

definition json_ws :: "jschar \<Rightarrow> bool" where
  "json_ws c = (c = 0x20 \<or> c = 0x09 \<or> c = 0x0A \<or> c = 0x0D)"

definition skip_ws :: "jsstring \<Rightarrow> jsstring" where
  "skip_ws s = dropWhile json_ws s"

definition hex_value :: "jschar \<Rightarrow> nat option" where
  "hex_value c =
     (if 0x30 \<le> c \<and> c \<le> 0x39 then Some (unat c - 0x30)
      else if 0x61 \<le> c \<and> c \<le> 0x66 then Some (unat c - 0x57)
      else if 0x41 \<le> c \<and> c \<le> 0x46 then Some (unat c - 0x37)
      else None)"

definition hex4 :: "jschar \<Rightarrow> jschar \<Rightarrow> jschar \<Rightarrow> jschar \<Rightarrow> jschar option" where
  "hex4 a b c d =
     (case (hex_value a, hex_value b, hex_value c, hex_value d) of
        (Some x, Some y, Some z, Some w) \<Rightarrow> Some (of_nat (((x * 16 + y) * 16 + z) * 16 + w))
      | _ \<Rightarrow> None)"

definition simple_escape :: "jschar \<Rightarrow> jschar option" where
  "simple_escape c =
     (if c = 0x22 then Some 0x22 else if c = 0x5C then Some 0x5C else if c = 0x2F then Some 0x2F
      else if c = 0x62 then Some 0x08 else if c = 0x66 then Some 0x0C
      else if c = 0x6E then Some 0x0A else if c = 0x72 then Some 0x0D
      else if c = 0x74 then Some 0x09 else None)"

definition cons_unit :: "jschar \<Rightarrow> (jsstring \<times> jsstring) option \<Rightarrow> (jsstring \<times> jsstring) option" where
  "cons_unit c r = map_option (\<lambda>(v, rest). (c # v, rest)) r"

text \<open>The characters of a string after its opening quote, up to and past the closing
  quote: the decoded string and the rest of the input.\<close>

fun parse_string_chars :: "jsstring \<Rightarrow> (jsstring \<times> jsstring) option" where
  "parse_string_chars [] = None"
| "parse_string_chars (c # cs) =
     (if c = 0x22 then Some ([], cs)
      else if c = 0x5C then
        (case cs of
           [] \<Rightarrow> None
         | e # r \<Rightarrow>
             if e = 0x75 then
               (case r of
                  h1 # h2 # h3 # h4 # r' \<Rightarrow>
                    (case hex4 h1 h2 h3 h4 of
                       None \<Rightarrow> None
                     | Some u \<Rightarrow> cons_unit u (parse_string_chars r'))
                | _ \<Rightarrow> None)
             else
               (case simple_escape e of
                  None \<Rightarrow> None
                | Some u \<Rightarrow> cons_unit u (parse_string_chars r)))
      else if c < 0x20 then None
      else cons_unit c (parse_string_chars cs))"

text \<open>The lexeme of a number:
  \<open>-? (0 | [1-9][0-9]*) (. [0-9]+)? ([eE] [+-]? [0-9]+)?\<close>.\<close>

definition json_digit :: "jschar \<Rightarrow> bool" where
  "json_digit c = (0x30 \<le> c \<and> c \<le> 0x39)"

definition parse_digits :: "jsstring \<Rightarrow> (jsstring \<times> jsstring) option" where
  "parse_digits s =
     (if takeWhile json_digit s = [] then None
      else Some (takeWhile json_digit s, dropWhile json_digit s))"

definition parse_int_part :: "jsstring \<Rightarrow> (jsstring \<times> jsstring) option" where
  "parse_int_part s =
     (case s of
        [] \<Rightarrow> None
      | c # r \<Rightarrow>
          if c = 0x30 then Some ([c], r)
          else if json_digit c then Some (c # takeWhile json_digit r, dropWhile json_digit r)
          else None)"

definition parse_frac :: "jsstring \<Rightarrow> (jsstring \<times> jsstring) option" where
  "parse_frac s =
     (case s of
        c # r \<Rightarrow>
          if c = 0x2E then map_option (\<lambda>(ds, r'). (c # ds, r')) (parse_digits r)
          else Some ([], s)
      | [] \<Rightarrow> Some ([], s))"

definition parse_exp :: "jsstring \<Rightarrow> (jsstring \<times> jsstring) option" where
  "parse_exp s =
     (case s of
        c # r \<Rightarrow>
          if c = 0x65 \<or> c = 0x45 then
            (case r of
               g # r' \<Rightarrow>
                 if g = 0x2B \<or> g = 0x2D
                 then map_option (\<lambda>(ds, r''). (c # g # ds, r'')) (parse_digits r')
                 else map_option (\<lambda>(ds, r''). (c # ds, r'')) (parse_digits r)
             | [] \<Rightarrow> None)
          else Some ([], s)
      | [] \<Rightarrow> Some ([], s))"

definition parse_number :: "jsstring \<Rightarrow> (jsstring \<times> jsstring) option" where
  "parse_number s =
     (let sign = (case s of c # r \<Rightarrow> if c = 0x2D then [c] else [] | [] \<Rightarrow> []);
          s1 = drop (length sign) s
      in case parse_int_part s1 of
           None \<Rightarrow> None
         | Some (i, s2) \<Rightarrow>
             (case parse_frac s2 of
                None \<Rightarrow> None
              | Some (f, s3) \<Rightarrow>
                  (case parse_exp s3 of
                     None \<Rightarrow> None
                   | Some (e, s4) \<Rightarrow> Some (sign @ i @ f @ e, s4))))"

definition parse_literal :: "jsstring \<Rightarrow> (json \<times> jsstring) option" where
  "parse_literal s =
     (if take 4 s = js ''true'' then Some (JBool True, drop 4 s)
      else if take 5 s = js ''false'' then Some (JBool False, drop 5 s)
      else if take 4 s = js ''null'' then Some (JNull, drop 4 s)
      else map_option (\<lambda>(n, r). (JNumber n, r)) (parse_number s))"

text \<open>
  A value, the members of an object after \<open>{\<close>, the elements of an array after \<open>[\<close>.
  The first argument bounds the number of nested calls; \<open>JSON_parse\<close> starts
  with one more than the length of the text.
\<close>

fun parse_value :: "nat \<Rightarrow> jsstring \<Rightarrow> (json \<times> jsstring) option"
  and parse_members ::
    "nat \<Rightarrow> (jsstring \<times> json) list \<Rightarrow> jsstring \<Rightarrow> ((jsstring \<times> json) list \<times> jsstring) option"
  and parse_elements :: "nat \<Rightarrow> json list \<Rightarrow> jsstring \<Rightarrow> (json list \<times> jsstring) option"
where
  "parse_value 0 s = None"
| "parse_value (Suc n) s =
     (case skip_ws s of
        [] \<Rightarrow> None
      | c # r \<Rightarrow>
          if c = 0x7B then
            (case skip_ws r of
               [] \<Rightarrow> None
             | d # r' \<Rightarrow>
                 if d = 0x7D then Some (JObject [], r')
                 else map_option (\<lambda>(ms, t). (JObject ms, t)) (parse_members n [] (d # r')))
          else if c = 0x5B then
            (case skip_ws r of
               [] \<Rightarrow> None
             | d # r' \<Rightarrow>
                 if d = 0x5D then Some (JArray [], r')
                 else map_option (\<lambda>(vs, t). (JArray vs, t)) (parse_elements n [] (d # r')))
          else if c = 0x22 then map_option (\<lambda>(v, t). (JString v, t)) (parse_string_chars r)
          else parse_literal (c # r))"
| "parse_members 0 acc s = None"
| "parse_members (Suc n) acc s =
     (case skip_ws s of
        [] \<Rightarrow> None
      | c # r \<Rightarrow>
          if c = 0x22 then
            (case parse_string_chars r of
               None \<Rightarrow> None
             | Some (k, r1) \<Rightarrow>
                 (case skip_ws r1 of
                    [] \<Rightarrow> None
                  | c1 # r2 \<Rightarrow>
                      if c1 = 0x3A then
                        (case parse_value n r2 of
                           None \<Rightarrow> None
                         | Some (v, r3) \<Rightarrow>
                             (case skip_ws r3 of
                                [] \<Rightarrow> None
                              | c3 # r4 \<Rightarrow>
                                  if c3 = 0x2C then parse_members n (acc @ [(k, v)]) r4
                                  else if c3 = 0x7D then Some (acc @ [(k, v)], r4)
                                  else None))
                      else None))
          else None)"
| "parse_elements 0 acc s = None"
| "parse_elements (Suc n) acc s =
     (case parse_value n s of
        None \<Rightarrow> None
      | Some (v, r3) \<Rightarrow>
          (case skip_ws r3 of
             [] \<Rightarrow> None
           | c3 # r4 \<Rightarrow>
               if c3 = 0x2C then parse_elements n (acc @ [v]) r4
               else if c3 = 0x5D then Some (acc @ [v], r4)
               else None))"

text \<open>\<open>JSON.parse\<close>; \<open>None\<close> is the SyntaxError.\<close>

definition JSON_parse :: "jsstring \<Rightarrow> json option" where
  "JSON_parse text =
     (case parse_value (Suc (length text)) text of
        None \<Rightarrow> None
      | Some (v, rest) \<Rightarrow> if skip_ws rest = [] then Some v else None)"

text \<open>
  The parsed value as form data: an object whose keys are the five field names, each
  with a string value (the last one, when a key is repeated). Any other value is not an
  \<open>IFormData\<close>, whatever the type annotation says.
\<close>

definition string_member :: "(jsstring \<times> json) list \<Rightarrow> string \<Rightarrow> jsstring option" where
  "string_member ms k =
     (case map_of (rev ms) (js k) of Some (JString v) \<Rightarrow> Some v | _ \<Rightarrow> None)"

definition as_formData :: "json \<Rightarrow> IFormData option" where
  "as_formData v =
     (case v of
        JObject ms \<Rightarrow>
          (case (string_member ms ''name'', string_member ms ''productLine'',
                 string_member ms ''erCode'', string_member ms ''description'',
                 string_member ms ''modelNumber'') of
             (Some a, Some b, Some c, Some d, Some e) \<Rightarrow>
               if list_all (\<lambda>(k, x). k \<in> set (map js [''name'', ''productLine'', ''erCode'',
                     ''description'', ''modelNumber''])) ms
               then Some \<lparr>name = a, productLine = b, erCode = c, description = d, modelNumber = e\<rparr>
               else None
           | _ \<Rightarrow> None)
      | _ \<Rightarrow> None)"

text \<open>
  \<open>handleSaveDraft\<close>; \<open>quota_ok\<close> tells whether \<open>localStorage.setItem\<close> succeeds. The
  timer that clears the saved flag three seconds later is \<open>draft_saved_timeout\<close>.
\<close>

definition handleSaveDraft :: "bool \<Rightarrow> ui_state \<Rightarrow> ui_state" where
  "handleSaveDraft quota_ok st =
     (if quota_ok then
        st\<lparr>localStorage := (localStorage st)(DRAFT_KEY \<mapsto> JSON_stringify (formData st)),
           isDraftSaved := True, hasDraft := True,
           toasts := toasts st @ [Success_toast ''Draft Saved!'' ''Your progress has been preserved.'']\<rparr>
      else
        st\<lparr>toasts := toasts st @ [Error_toast ''Save Failed''
              ''Unable to save draft. Please try again.'']\<rparr>)"

definition draft_saved_timeout :: "ui_state \<Rightarrow> ui_state" where
  "draft_saved_timeout st = st\<lparr>isDraftSaved := False\<rparr>"

text \<open>
  The effect that runs once on mount, with the validity effect that follows a change of
  the form data. The result is \<open>None\<close> when the stored text parses to something that is
  not form data: the state then leaves what \<open>ui_state\<close> can hold.
\<close>

definition load_draft :: "ui_state \<Rightarrow> ui_state option" where
  "load_draft st =
     (case localStorage st DRAFT_KEY of
        None \<Rightarrow> Some st
      | Some savedDraft \<Rightarrow>
          if savedDraft = [] then Some st
          else
            (case JSON_parse savedDraft of
               None \<Rightarrow> Some st
             | Some parsedDraft \<Rightarrow>
                 (case as_formData parsedDraft of
                    None \<Rightarrow> None
                  | Some fd \<Rightarrow> Some (validity_effect (st\<lparr>formData := fd, hasDraft := True\<rparr>)))))"

definition mount :: "(string \<rightharpoonup> jsstring) \<Rightarrow> ui_state option" where
  "mount ls = load_draft (initial_state ls)"

section \<open>Definitions that follow the specification's words\<close>

text \<open>The name pattern as the specification writes it, \<open>^[A-Za-z ]+$\<close>, and the
  acceptance condition it documents for the name validator.\<close>

definition spec_name_re :: "item list" where
  "spec_name_re = [Item [upper_AZ, lower_az, Single 0x20] 1 None]"

definition spec_name_valid :: "jsstring \<Rightarrow> bool" where
  "spec_name_valid v = (v \<noteq> [] \<and> 2 \<le> length v \<and> regex_test spec_name_re v)"

text \<open>The message of a failed submission as the specification words it: the server's
  error body when present, else the generic message.\<close>

definition spec_errorMessage :: "AxiosError \<Rightarrow> string" where
  "spec_errorMessage e = (case response_message e of Some m \<Rightarrow> m | None \<Rightarrow> generic_message)"

section \<open>Auxiliary definitions for the proofs\<close>

definition is_letter :: "jschar \<Rightarrow> bool" where
  "is_letter c = ((0x41 \<le> c \<and> c \<le> 0x5A) \<or> (0x61 \<le> c \<and> c \<le> 0x7A))"

definition is_upper :: "jschar \<Rightarrow> bool" where
  "is_upper c = (0x41 \<le> c \<and> c \<le> 0x5A)"

definition is_digit :: "jschar \<Rightarrow> bool" where
  "is_digit c = (0x30 \<le> c \<and> c \<le> 0x39)"

text \<open>The characters \<open>validator.escape\<close> replaces.\<close>

definition escaped :: "jschar \<Rightarrow> bool" where
  "escaped c = (c \<in> set [0x26, 0x22, 0x27, 0x3C, 0x3E, 0x2F, 0x5C, 0x60])"

text \<open>A request that satisfies the schema, a request environment and an empty store, for
  the concrete instances below.\<close>

definition example_body :: body where
  "example_body =
     \<lparr>b_name = Some (js ''Ada Lovelace''), b_productLine = Some (js ''GM''),
      b_erCode = Some (js ''ER123456''), b_description = Some (js ''A long enough description''),
      b_modelNumber = Some (js ''AB1234C''),
      b_submittedAt = Some (js ''2024-05-01T10:00:00.000Z'')\<rparr>"

definition example_env :: "nat server_env" where
  "example_env = \<lparr>now = 1714557600000, fresh_id = 7, store_fault = None\<rparr>"

definition empty_store :: "nat store" where
  "empty_store = \<lparr>docs = [], queries = 0\<rparr>"

text \<open>The responses and conditions of the create handler, named.\<close>

definition created :: "'oid FormSubmission \<Rightarrow> 'oid response" where
  "created d = \<lparr>r_status = 201, r_success = True,
               r_message = Some ''Form submitted successfully'', r_errors = None,
               r_error = None, r_data = One d, r_pagination = None\<rparr>"

definition all_present :: "body \<Rightarrow> bool" where
  "all_present fd = (\<not> falsy (b_name fd) \<and> \<not> falsy (b_productLine fd) \<and> \<not> falsy (b_erCode fd)
     \<and> \<not> falsy (b_description fd) \<and> \<not> falsy (b_modelNumber fd))"

text \<open>The document the create handler builds from a request.\<close>

definition candidate :: "'oid server_env \<Rightarrow> body \<Rightarrow> 'oid FormSubmission" where
  "candidate env req = new_FormSubmission env (sanitizeInput req) (now env)"

text \<open>What \<open>validator.escape\<close> makes of one character.\<close>

definition escape_char :: "jschar \<Rightarrow> jsstring" where
  "escape_char c =
     (if c = 0x26 then js ''&amp;'' else if c = 0x22 then js ''&quot;''
      else if c = 0x27 then js ''&#x27;'' else if c = 0x3C then js ''&lt;''
      else if c = 0x3E then js ''&gt;'' else if c = 0x2F then js ''&#x2F;''
      else if c = 0x5C then js ''&#x5C;'' else if c = 0x60 then js ''&#96;'' else [c])"

text \<open>A description of 500 characters that ends in an ampersand.\<close>

definition long_description :: jsstring where
  "long_description = replicate 499 0x61 @ [0x26]"

text \<open>The effects of one request, the retry-eligible errors, and some networks: one
  that fails twice before it answers, one that always answers 400, one that always times
  out.\<close>

definition push :: "'d network \<Rightarrow> IFormData \<Rightarrow> effects \<Rightarrow> effects" where
  "push w fd eff =
     eff\<lparr>sent := sent eff @ [\<lparr>p_formData = fd, p_submittedAt = client_now w (length (sent eff))\<rparr>]\<rparr>"

definition network_error :: "AxiosError \<Rightarrow> bool" where
  "network_error e = (code e = Some ''NETWORK_ERROR'')"

definition timeout_error :: AxiosError where
  "timeout_error = \<lparr>code = Some ''ECONNABORTED'', err_message = Some ''timeout of 10000ms exceeded'',
     response_message = None\<rparr>"

definition no_effects :: effects where
  "no_effects = \<lparr>sent = [], slept = 0\<rparr>"

definition flaky :: "nat network" where
  "flaky = \<lparr>respond = (\<lambda>n. if n < 2
       then Rejected \<lparr>code = Some ''NETWORK_ERROR'', err_message = Some ''Network Error'',
              response_message = None\<rparr>
       else Resolved 42),
     client_now = (\<lambda>n. 1000 * int n)\<rparr>"

definition refusing :: "nat network" where
  "refusing = \<lparr>respond = (\<lambda>n. Rejected \<lparr>code = Some ''ERR_BAD_REQUEST'',
        err_message = Some ''Request failed with status code 400'',
        response_message = Some ''Validation failed''\<rparr>),
     client_now = (\<lambda>n. 0)\<rparr>"

definition timing_out :: "nat network" where
  "timing_out = \<lparr>respond = (\<lambda>n. Rejected timeout_error), client_now = (\<lambda>n. 0)\<rparr>"

text \<open>
  A failure that carries the server's response: axios gives a 4xx answer the code
  \<open>ERR_BAD_REQUEST\<close> and a 5xx answer the code \<open>ERR_BAD_RESPONSE\<close>. A network that
  always answers, and one whose connection fails twice, with the code \<open>ERR_NETWORK\<close>
  that axios gives a failed connection, before it answers. The two results of
  \<open>submitForm\<close>, named.
\<close>

definition http_failure :: "AxiosError \<Rightarrow> bool" where
  "http_failure e = (code e = Some ''ERR_BAD_REQUEST'' \<or> code e = Some ''ERR_BAD_RESPONSE'')"

definition answering :: "nat network" where
  "answering = \<lparr>respond = (\<lambda>n. Resolved 42), client_now = (\<lambda>n. 0)\<rparr>"

definition offline :: "nat network" where
  "offline = \<lparr>respond = (\<lambda>n. if n < 2
       then Rejected \<lparr>code = Some ''ERR_NETWORK'', err_message = Some ''Network Error'',
              response_message = None\<rparr>
       else Resolved 42),
     client_now = (\<lambda>n. 0)\<rparr>"

definition succeeded :: "'d \<Rightarrow> 'd IApiResponse" where
  "succeeded d = \<lparr>success = True, res_message = ''Form submitted successfully'', res_data = Some d\<rparr>"

definition failed :: "AxiosError \<Rightarrow> 'd IApiResponse" where
  "failed e = \<lparr>success = False, res_message = errorMessage e, res_data = None\<rparr>"

text \<open>A form that every validator accepts.\<close>

definition filled_form :: IFormData where
  "filled_form = \<lparr>name = js ''Ada Lovelace'', productLine = js ''AB-12'', erCode = js ''ER123456'',
     description = js ''A long enough description'', modelNumber = js ''AB1234C''\<rparr>"

text \<open>Responses of the handlers by identifier, and the listing's parameters and order.\<close>

definition deleted :: "'oid response" where
  "deleted = \<lparr>r_status = 200, r_success = True,
       r_message = Some ''Submission deleted successfully'', r_errors = None,
       r_error = None, r_data = No_data, r_pagination = None\<rparr>"

definition found :: "'oid FormSubmission \<Rightarrow> 'oid response" where
  "found d = \<lparr>r_status = 200, r_success = True, r_message = None, r_errors = None,
       r_error = None, r_data = One d, r_pagination = None\<rparr>"

definition newest_first :: "'oid FormSubmission list \<Rightarrow> 'oid FormSubmission list" where
  "newest_first xs = sort_key (\<lambda>d. - d_submittedAt d) xs"

definition page_of :: "query \<Rightarrow> int" where
  "page_of q = or_default (parseInt (q_page q)) 1"

definition limit_of :: "query \<Rightarrow> int" where
  "limit_of q = or_default (parseInt (q_limit q)) 10"

text \<open>A store of twelve records, and one concrete notion of a well-formed identifier:
  24 hexadecimal digits, read as a number.\<close>

definition record_at :: "nat \<Rightarrow> nat FormSubmission" where
  "record_at k =
     \<lparr>d_id = k, d_name = Some (js ''Ada Lovelace''), d_productLine = Some (js ''GM''),
      d_erCode = Some (js ''ER123456''), d_description = Some (js ''A long enough description''),
      d_modelNumber = Some (js ''AB1234C''), d_submittedAt = 1000 * int k\<rparr>"

definition twelve_records :: "nat store" where
  "twelve_records = \<lparr>docs = map record_at [0..<12], queries = 0\<rparr>"

definition is_hex24 :: "jsstring \<Rightarrow> bool" where
  "is_hex24 s = (length s = 24 \<and> list_all (\<lambda>c. digit_value c < 16) s)"

definition hex_id :: "jsstring \<Rightarrow> nat" where
  "hex_id s = nat (digits_value 16 s)"

text \<open>The result of the string parser with a prefix put before the decoded string; the
  object a stringified form parses to; and a form with quotes, escapes, control
  characters and surrogates in its fields.\<close>

definition prepend :: "jsstring \<Rightarrow> (jsstring \<times> jsstring) option \<Rightarrow> (jsstring \<times> jsstring) option" where
  "prepend s r = map_option (\<lambda>(v, rest). (s @ v, rest)) r"

definition draft_object :: "IFormData \<Rightarrow> json" where
  "draft_object fd =
     JObject [(js ''name'', JString (name fd)), (js ''productLine'', JString (productLine fd)),
       (js ''erCode'', JString (erCode fd)), (js ''description'', JString (description fd)),
       (js ''modelNumber'', JString (modelNumber fd))]"

definition awkward_form :: IFormData where
  "awkward_form = \<lparr>name = [0x22, 0x5C, 0x01, 0xD800, 0x41, 0xD83D, 0xDE00, 0xDC00, 0x0A, 0x1F, 0xFFFF],
     productLine = js ''{\"name\":\"x\"}'', erCode = [], description = js ''  a,b : c  '',
     modelNumber = js ''AB1234C''\<rparr>"

section \<open>Regular expressions: matching as splitting\<close>

lemma list_ex_upt: "list_ex P [a..<b] = (\<exists>k. a \<le> k \<and> k < b \<and> P k)"
  by (auto simp: list_ex_iff)

lemma regex_test_cons:
  "regex_test (a # as) s =
     (\<exists>k. lo a \<le> k \<and> k \<le> upper_count a s \<and> list_all (in_class (cls a)) (take k s)
          \<and> regex_test as (drop k s))"
  by (simp only: regex_test.simps list_ex_upt less_Suc_eq_le)

declare regex_test.simps(2) [simp del]

lemma regex_test_split:
  "regex_test (a # as) s =
     (\<exists>u w. s = u @ w \<and> lo a \<le> length u
         \<and> (case hi a of None \<Rightarrow> True | Some h \<Rightarrow> length u \<le> h)
         \<and> list_all (in_class (cls a)) u \<and> regex_test as w)"
  (is "?L = ?R")
proof
  assume ?L
  then obtain k where k: "lo a \<le> k" "k \<le> upper_count a s"
      "list_all (in_class (cls a)) (take k s)" "regex_test as (drop k s)"
    unfolding regex_test_cons by blast
  have kl: "k \<le> length s"
    using k(2) by (simp add: upper_count_def split: option.splits)
  have "s = take k s @ drop k s" by simp
  moreover have "lo a \<le> length (take k s)" using k(1) kl by simp
  moreover have "(case hi a of None \<Rightarrow> True | Some h \<Rightarrow> length (take k s) \<le> h)"
    using k(2) kl by (simp add: upper_count_def split: option.splits)
  ultimately show ?R using k(3,4) by blast
next
  assume ?R
  then obtain u w where uw: "s = u @ w" "lo a \<le> length u"
     "(case hi a of None \<Rightarrow> True | Some h \<Rightarrow> length u \<le> h)"
     "list_all (in_class (cls a)) u" "regex_test as w" by blast
  have "length u \<le> upper_count a s"
    using uw(1,3) by (simp add: upper_count_def split: option.splits)
  then show ?L unfolding regex_test_cons using uw
    by (intro exI[of _ "length u"]) simp
qed

lemma in_class_name:
  "in_class [lower_az, upper_AZ, Space_class] c = (is_letter c \<or> js_whitespace c)"
  by (auto simp: in_class_def is_letter_def)

lemma name_re_iff:
  "regex_test name_re v = (v \<noteq> [] \<and> list_all (\<lambda>c. is_letter c \<or> js_whitespace c) v)"
proof -
  have "regex_test name_re v =
      (1 \<le> length v \<and> list_all (in_class [lower_az, upper_AZ, Space_class]) v)"
    by (auto simp: name_re_def regex_test_split)
  then show ?thesis
    by (simp add: list_all_iff in_class_name Suc_le_eq)
qed

lemma regex_test_Item:
  "regex_test (Item cs l h # as) s =
     (\<exists>u w. s = u @ w \<and> l \<le> length u \<and> (case h of None \<Rightarrow> True | Some m \<Rightarrow> length u \<le> m)
        \<and> (\<forall>c\<in>set u. \<exists>x\<in>set cs. in_cclass c x) \<and> regex_test as w)"
  by (simp add: regex_test_split list_all_iff in_class_def list_ex_iff)

lemma regex_test_lit:
  "regex_test (lit ch # as) s = (\<exists>w. s = of_char ch # w \<and> regex_test as w)"
proof -
  have "regex_test (lit ch # as) s =
      (\<exists>u w. s = u @ w \<and> 1 \<le> length u \<and> length u \<le> 1 \<and> (\<forall>c\<in>set u. c = of_char ch) \<and> regex_test as w)"
    unfolding lit_def regex_test_Item by simp
  also have "\<dots> = (\<exists>w. s = of_char ch # w \<and> regex_test as w)" (is "?A = ?B")
  proof
    assume ?A
    then obtain u w where *: "s = u @ w" "1 \<le> length u" "length u \<le> 1" "\<forall>c\<in>set u. c = of_char ch"
      "regex_test as w" by blast
    from *(2,3) have "length u = Suc 0" by simp
    then obtain y where "u = [y]" by (auto simp: length_Suc_conv)
    with *(4) have "u = [of_char ch]" by simp
    with *(1,5) show ?B by simp
  next
    assume ?B
    then obtain w where w: "s = of_char ch # w" "regex_test as w" by blast
    show ?A
      apply (rule exI[of _ "[of_char ch]"])
      apply (rule exI[of _ w])
      using w apply simp
      done
  qed
  finally show ?thesis .
qed

lemma productLine_re_iff:
  "regex_test productLine_re v =
     (\<exists>u w. v = u @ 0x2D # w \<and> 2 \<le> length u \<and> length u \<le> 4 \<and> list_all is_upper u
        \<and> 2 \<le> length w \<and> length w \<le> 4 \<and> list_all is_digit w)"
proof -
  have d: "regex_test [Item [digit_09] 2 (Some 4)] w =
      (2 \<le> length w \<and> length w \<le> 4 \<and> list_all is_digit w)" for w
    by (simp add: regex_test_Item list_all_iff is_digit_def)
  have l: "regex_test [lit CHR ''-'', Item [digit_09] 2 (Some 4)] t =
      (\<exists>w. t = 0x2D # w \<and> 2 \<le> length w \<and> length w \<le> 4 \<and> list_all is_digit w)" for t
    by (simp add: regex_test_lit d)
  show ?thesis
    unfolding productLine_re_def regex_test_Item [of "[upper_AZ]"] l
    by (auto simp: list_all_iff is_upper_def)
qed

lemma regex_test_Item_exact:
  "regex_test (Item cs n (Some n) # as) s =
     (\<exists>u w. s = u @ w \<and> length u = n \<and> (\<forall>c\<in>set u. \<exists>x\<in>set cs. in_cclass c x) \<and> regex_test as w)"
proof -
  have "(n \<le> length u \<and> length u \<le> n \<and> P) = (length u = n \<and> P)" for u :: jsstring and P
    by auto
  then show ?thesis unfolding regex_test_Item by simp
qed

lemma erCode_re_iff:
  "regex_test erCode_re v = (\<exists>w. v = 0x45 # 0x52 # w \<and> length w = 6 \<and> list_all is_digit w)"
proof -
  have d: "regex_test [Item [digit_09] 6 (Some 6)] w = (length w = 6 \<and> list_all is_digit w)" for w
    by (simp add: regex_test_Item_exact list_all_iff is_digit_def)
  show ?thesis
    by (auto simp add: erCode_re_def regex_test_lit d)
qed

lemma modelNumber_re_iff:
  "regex_test modelNumber_re v =
     (\<exists>u w x. v = u @ w @ x \<and> length u = 2 \<and> list_all is_upper u \<and> length w = 4
        \<and> list_all is_digit w \<and> length x \<le> 1 \<and> list_all is_upper x)"
proof -
  have x: "regex_test [Item [upper_AZ] 0 (Some 1)] x = (length x \<le> 1 \<and> list_all is_upper x)" for x
    by (simp add: regex_test_Item list_all_iff is_upper_def)
  have w: "regex_test [Item [digit_09] 4 (Some 4), Item [upper_AZ] 0 (Some 1)] t =
     (\<exists>w x. t = w @ x \<and> length w = 4 \<and> list_all is_digit w \<and> length x \<le> 1 \<and> list_all is_upper x)" for t
    unfolding regex_test_Item_exact [of "[digit_09]"] x
    by (simp add: list_all_iff is_digit_def)
  show ?thesis
    unfolding modelNumber_re_def regex_test_Item_exact [of "[upper_AZ]" 2] w
    by (auto simp add: list_all_iff is_upper_def)
qed

lemma productLine_values_length: "length productLine_values = 38"
  by (simp add: productLine_values_def)

lemma productLine_values_no_dash: "\<forall>e\<in>set productLine_values. 0x2D \<notin> set e"
  by (simp add: productLine_values_def js_def)

lemma productLine_values_nonempty: "[] \<notin> set productLine_values"
  by (simp add: productLine_values_def js_def)

lemma productLine_values_distinct: "distinct productLine_values"
  by (simp add: productLine_values_def js_def)

section \<open>The client's name validator\<close>

text \<open>
  C9, as the specification states it, fails: the validator's pattern is
  \<open>^[a-zA-Z\s]+$\<close>, and \<open>\s\<close> is every white-space character, not the space alone.
  The name \<open>a<TAB>b\<close> is accepted by \<open>validateName\<close> and does not match
  \<open>^[A-Za-z ]+$\<close>.
\<close>

theorem validateName_tab_counterexample:
  "isValid (validateName [0x61, 0x09, 0x62]) \<and> \<not> spec_name_valid [0x61, 0x09, 0x62]"
  by (simp add: validateName_def spec_name_valid_def name_re_def spec_name_re_def
      regex_test.simps in_class_def upper_count_def js_whitespace_def)

text \<open>
  C9, amended: \<open>validateName\<close> returns \<open>isValid = true\<close> exactly for the strings of
  length at least 2 all of whose characters are ASCII letters or white-space characters
  (the class \<open>\s\<close>); every other string, the empty one included, yields
  \<open>isValid = false\<close>.
\<close>

theorem validateName_accepts:
  "isValid (validateName v) =
     (2 \<le> length v \<and> list_all (\<lambda>c. is_letter c \<or> js_whitespace c) v)"
  by (auto simp: validateName_def name_re_iff)

theorem validateName_accepts_witness:
  "isValid (validateName (js ''Ada Lovelace'')) \<and> \<not> isValid (validateName (js ''A''))
   \<and> \<not> isValid (validateName (js ''R2D2'')) \<and> \<not> isValid (validateName [])"
  using validateName_accepts [of "js ''Ada Lovelace''"] validateName_accepts [of "js ''A''"]
    validateName_accepts [of "js ''R2D2''"] validateName_accepts [of "[]"]
  by (simp add: js_def is_letter_def js_whitespace_def)

section \<open>Sanitisation and schema validation\<close>

lemma replace_all_id: "c \<notin> set s \<Longrightarrow> replace_all c r s = s"
  by (induction s) (auto simp: replace_all_def)

lemma trim_id: "\<forall>c\<in>set s. \<not> js_whitespace c \<Longrightarrow> trim s = s"
proof -
  assume a: "\<forall>c\<in>set s. \<not> js_whitespace c"
  have "dropWhile js_whitespace s = s" using a by (cases s) auto
  moreover have "dropWhile js_whitespace (rev s) = rev s" using a by (cases "rev s") (auto simp: rev_eq_Cons_iff)
  ultimately show ?thesis by (simp add: trim_def)
qed

lemma validator_escape_id:
  assumes "\<forall>c\<in>set s. \<not> escaped c" shows "validator_escape s = s"
proof -
  have "0x26 \<notin> set s" "0x22 \<notin> set s" "0x27 \<notin> set s" "0x3C \<notin> set s" "0x3E \<notin> set s"
    "0x2F \<notin> set s" "0x5C \<notin> set s" "0x60 \<notin> set s"
    using assms by (auto simp: escaped_def)
  then show ?thesis by (simp add: validator_escape_def replace_all_id)
qed

lemma sanitize_id: "\<forall>c\<in>set s. \<not> js_whitespace c \<and> \<not> escaped c \<Longrightarrow> sanitize s = s"
  by (simp add: sanitize_def trim_id validator_escape_id)

lemma plain_char: "is_upper c \<or> c = 0x2D \<or> is_digit c \<Longrightarrow> \<not> js_whitespace c \<and> \<not> escaped c"
  unfolding is_upper_def is_digit_def js_whitespace_def escaped_def
  by (auto simp: word_le_nat_alt)

lemma productLine_re_chars:
  "regex_test productLine_re v \<Longrightarrow> \<forall>c\<in>set v. is_upper c \<or> c = 0x2D \<or> is_digit c"
  by (auto simp: productLine_re_iff list_all_iff)

lemma productLine_re_dash: "regex_test productLine_re v \<Longrightarrow> 0x2D \<in> set v"
  by (auto simp: productLine_re_iff)

lemma productLine_re_sanitize: "regex_test productLine_re v \<Longrightarrow> sanitize v = v"
  using productLine_re_chars plain_char by (intro sanitize_id) blast

lemma set_map_filter': "set (List.map_filter f xs) = {y. \<exists>x\<in>set xs. f x = Some y}"
  by (induction xs) (auto simp: List.map_filter_simps split: option.splits)

lemma validate_doc_iff:
  "(p, m) \<in> set (validate_doc d) =
     ((p = ''name'' \<and> path_error name_validators (d_name d) = Some m)
      \<or> (p = ''productLine'' \<and> path_error productLine_validators (d_productLine d) = Some m)
      \<or> (p = ''erCode'' \<and> path_error erCode_validators (d_erCode d) = Some m)
      \<or> (p = ''description'' \<and> path_error description_validators (d_description d) = Some m)
      \<or> (p = ''modelNumber'' \<and> path_error modelNumber_validators (d_modelNumber d) = Some m))"
  unfolding validate_doc_def set_map_filter' formSubmissionSchema_def
  by auto

lemma productLine_path_error:
  "path_error productLine_validators x =
     (case x of None \<Rightarrow> Some ''Product Line is required''
      | Some v \<Rightarrow> if v = [] then Some ''Product Line is required''
                  else if v \<in> set productLine_values then None
                  else Some ''Please select a valid product line'')"
  by (cases x) (simp_all add: productLine_validators_def)

lemma save_invalid:
  "validate_doc d \<noteq> [] \<Longrightarrow> save env d st = (Inl (ValidationError (validate_doc d)), st)"
  by (cases "validate_doc d") (simp_all add: save_def)

lemma validateProductLine_iff:
  "isValid (validateProductLine v) = (v \<noteq> [] \<and> 3 \<le> length v \<and> regex_test productLine_re v)"
  by (auto simp: validateProductLine_def)

lemma client_server_disjoint:
  "\<not> (isValid (validateProductLine v) \<and> v \<in> set productLine_values)"
  using productLine_re_dash [of v] productLine_values_no_dash
  by (auto simp: validateProductLine_iff)

lemma post_client_productLine:
  assumes v: "isValid (validateProductLine v)" and b: "b_productLine req = Some v"
  shows "snd (post_submissions env req st) = st
     \<and> r_status (fst (post_submissions env req st)) = 400
     \<and> \<not> r_success (fst (post_submissions env req st))
     \<and> (r_message (fst (post_submissions env req st)) = Some ''All fields are required''
        \<or> r_message (fst (post_submissions env req st)) = Some ''Validation failed''
          \<and> (\<exists>es. r_errors (fst (post_submissions env req st)) = Some es
                \<and> ''Please select a valid product line'' \<in> set es))"
proof -
  let ?fd = "sanitizeInput req"
  let ?d = "new_FormSubmission env ?fd (now env) :: 'a FormSubmission"
  from v have re: "regex_test productLine_re v" and ne: "v \<noteq> []"
    by (simp_all add: validateProductLine_iff)
  have "b_productLine ?fd = Some v"
    using b productLine_re_sanitize [OF re] by (simp add: sanitizeInput_def)
  then have dp: "d_productLine ?d = Some v" by (simp add: new_FormSubmission_def)
  have "v \<notin> set productLine_values" using client_server_disjoint [of v] v by simp
  then have "path_error productLine_validators (d_productLine ?d) = Some ''Please select a valid product line''"
    using ne dp by (simp add: productLine_path_error)
  then have mem: "(''productLine'', ''Please select a valid product line'') \<in> set (validate_doc ?d)"
    by (simp add: validate_doc_iff)
  then have "validate_doc ?d \<noteq> []" by auto
  then have sv: "save env ?d st = (Inl (ValidationError (validate_doc ?d)), st)"
    by (rule save_invalid)
  have "''Please select a valid product line'' \<in> set (map snd (validate_doc ?d))"
    using mem by force
  then show ?thesis
    by (simp add: post_submissions_def Let_def sv failure_def)
qed

section \<open>The product line: client pattern against server enumeration\<close>

text \<open>
  C1: \<open>validateProductLine\<close> accepts exactly the non-empty strings of length at least 3
  that match \<open>^[A-Z]{2,4}-[0-9]{2,4}$\<close>; the schema's \<open>productLine\<close> path accepts exactly
  the 38 values of its enumeration; no string is accepted by both; and a request whose
  \<open>productLine\<close> passes the client validator is rejected by the create handler with
  status 400 and nothing written: with \<open>All fields are required\<close> when another field is
  missing, and otherwise with \<open>Validation failed\<close> and the product-line message among
  the errors.
\<close>

theorem productLine_client_server_disjoint:
  "(isValid (validateProductLine v) = (v \<noteq> [] \<and> 3 \<le> length v \<and> regex_test productLine_re v))
   \<and> ((path_error productLine_validators x = None) = (\<exists>e\<in>set productLine_values. x = Some e))
   \<and> length productLine_values = 38 \<and> distinct productLine_values
   \<and> \<not> (isValid (validateProductLine v) \<and> v \<in> set productLine_values)
   \<and> (isValid (validateProductLine v) \<and> b_productLine req = Some v \<longrightarrow>
        snd (post_submissions env req st) = st
        \<and> r_status (fst (post_submissions env req st)) = 400
        \<and> \<not> r_success (fst (post_submissions env req st))
        \<and> (r_message (fst (post_submissions env req st)) = Some ''All fields are required''
           \<or> r_message (fst (post_submissions env req st)) = Some ''Validation failed''
             \<and> (\<exists>es. r_errors (fst (post_submissions env req st)) = Some es
                   \<and> ''Please select a valid product line'' \<in> set es)))"
proof -
  have "(path_error productLine_validators x = None) = (\<exists>e\<in>set productLine_values. x = Some e)"
    using productLine_values_nonempty
    by (cases x) (auto simp: productLine_path_error)
  then show ?thesis
    using validateProductLine_iff [of v] productLine_values_length productLine_values_distinct
      client_server_disjoint [of v] post_client_productLine [of v req env st]
    by blast
qed

theorem productLine_client_server_disjoint_witness:
  "isValid (validateProductLine (js ''AB-12''))
   \<and> js ''AB-12'' \<notin> set productLine_values
   \<and> snd (post_submissions example_env (example_body\<lparr>b_productLine := Some (js ''AB-12'')\<rparr>) empty_store)
       = empty_store
   \<and> r_status (fst (post_submissions example_env
         (example_body\<lparr>b_productLine := Some (js ''AB-12'')\<rparr>) empty_store)) = 400"
proof -
  have h: "isValid (validateProductLine (js ''AB-12''))"
    by (simp add: validateProductLine_def productLine_re_def lit_def js_def regex_test.simps
      in_class_def upper_count_def)
  show ?thesis
    using h productLine_client_server_disjoint [of "js ''AB-12''" None
        "example_body\<lparr>b_productLine := Some (js ''AB-12'')\<rparr>" example_env empty_store]
    by (simp add: example_body_def)
qed

section \<open>The create handler\<close>

lemma post_submissions_eq:
  "post_submissions env req st =
     (let d = new_FormSubmission env (sanitizeInput req) (now env) in
      if \<not> all_present (sanitizeInput req) then (failure 400 ''All fields are required'', st)
      else if validate_doc d \<noteq> []
        then ((failure 400 ''Validation failed'')\<lparr>r_errors := Some (map snd (validate_doc d))\<rparr>, st)
      else (case store_fault env of
              Some m \<Rightarrow> ((failure 500 ''Failed to save form submission'')\<lparr>r_error := Some m\<rparr>, issue st)
            | None \<Rightarrow>
                if d_id d \<in> set (map d_id (docs st))
                then ((failure 500 ''Failed to save form submission'')
                        \<lparr>r_error := Some ''E11000 duplicate key error''\<rparr>, issue st)
                else (created d, issue (st\<lparr>docs := docs st @ [d]\<rparr>))))"
  by (cases "validate_doc (new_FormSubmission env (sanitizeInput req) (now env))")
     (auto simp: post_submissions_def save_def all_present_def created_def Let_def
        split: option.splits)

lemma sanitizeInput_submittedAt:
  "all_present (sanitizeInput (req\<lparr>b_submittedAt := t\<rparr>)) = all_present (sanitizeInput req)"
  "new_FormSubmission env (sanitizeInput (req\<lparr>b_submittedAt := t\<rparr>)) date
     = new_FormSubmission env (sanitizeInput req) date"
  by (simp_all add: all_present_def sanitizeInput_def new_FormSubmission_def)

lemma post_201:
  assumes "r_status (fst (post_submissions env req st)) = 201"
  shows "post_submissions env req st =
     (created (new_FormSubmission env (sanitizeInput req) (now env)),
      issue (st\<lparr>docs := docs st @ [new_FormSubmission env (sanitizeInput req) (now env)]\<rparr>))"
  using assms unfolding post_submissions_eq Let_def
  by (auto simp: failure_def split: if_splits option.splits)

lemma submitForm_sent_first:
  "sent (snd (submitForm w fd r eff)) ! length (sent eff)
     = \<lparr>p_formData = fd, p_submittedAt = client_now w (length (sent eff))\<rparr>
   \<and> length (sent eff) < length (sent (snd (submitForm w fd r eff)))
   \<and> take (length (sent eff)) (sent (snd (submitForm w fd r eff))) = sent eff"
proof (induction w fd r eff rule: submitForm.induct)
  case (1 w fd retries eff)
  show ?case
  proof (cases "respond w (length (sent eff))")
    case (Resolved d)
    then show ?thesis by (simp add: Let_def nth_append)
  next
    case (Rejected e)
    show ?thesis
    proof (cases "retries > 0 \<and> code e = Some ''NETWORK_ERROR''")
      case True
      let ?eff1 = "eff\<lparr>sent := sent eff @ [\<lparr>p_formData = fd, p_submittedAt = client_now w (length (sent eff))\<rparr>]\<rparr>"
      let ?eff2 = "?eff1\<lparr>slept := slept ?eff1 + 1000\<rparr>"
      have ih: "sent (snd (submitForm w fd (retries - 1) ?eff2)) ! length (sent ?eff2)
           = \<lparr>p_formData = fd, p_submittedAt = client_now w (length (sent ?eff2))\<rparr>
         \<and> length (sent ?eff2) < length (sent (snd (submitForm w fd (retries - 1) ?eff2)))
         \<and> take (length (sent ?eff2)) (sent (snd (submitForm w fd (retries - 1) ?eff2))) = sent ?eff2"
        using "1.IH" [OF refl refl Rejected True] by simp
      have eq: "submitForm w fd retries eff = submitForm w fd (retries - 1) ?eff2"
        using Rejected True by (subst submitForm.simps) (simp add: Let_def)
      let ?r = "sent (snd (submitForm w fd (retries - 1) ?eff2))"
      from ih have tk: "take (Suc (length (sent eff))) ?r = sent eff @ [\<lparr>p_formData = fd, p_submittedAt = client_now w (length (sent eff))\<rparr>]"
        and lt: "Suc (length (sent eff)) < length ?r" by simp_all
      have "?r ! length (sent eff) = take (Suc (length (sent eff))) ?r ! length (sent eff)" by simp
      also have "\<dots> = \<lparr>p_formData = fd, p_submittedAt = client_now w (length (sent eff))\<rparr>"
        unfolding tk by simp
      finally have a: "?r ! length (sent eff) = \<lparr>p_formData = fd, p_submittedAt = client_now w (length (sent eff))\<rparr>" .
      have "take (length (sent eff)) ?r = take (length (sent eff)) (take (Suc (length (sent eff))) ?r)"
        by (simp add: min_def)
      also have "\<dots> = sent eff" unfolding tk by simp
      finally have b: "take (length (sent eff)) ?r = sent eff" .
      show ?thesis unfolding eq using a b lt by simp
    next
      case False
      then show ?thesis using Rejected by (subst (1 2 3) submitForm.simps) (auto simp add: Let_def nth_append)
    qed
  qed
qed

lemma replace_all_append: "replace_all c r (a @ b) = replace_all c r a @ replace_all c r b"
  by (simp add: replace_all_def)

lemma validator_escape_append:
  "validator_escape (a @ b) = validator_escape a @ validator_escape b"
  by (simp add: validator_escape_def replace_all_append)

lemma validator_escape_single: "validator_escape [c] = escape_char c"
  by (simp add: validator_escape_def escape_char_def replace_all_def js_def)

lemma validator_escape_Nil: "validator_escape [] = []"
  by (simp add: validator_escape_def replace_all_def)

lemma validator_escape_Cons: "validator_escape (c # s) = escape_char c @ validator_escape s"
  using validator_escape_append [of "[c]" s] by (simp add: validator_escape_single)

lemma validator_escape_concat: "validator_escape s = concat (map escape_char s)"
  by (induction s) (simp_all add: validator_escape_Nil validator_escape_Cons)

lemma length_escape_char: "1 \<le> length (escape_char c)"
  by (simp add: escape_char_def js_def)

lemma length_validator_escape: "length s \<le> length (validator_escape s)"
proof (induction s)
  case Nil
  then show ?case by (simp add: validator_escape_Nil)
next
  case (Cons c s)
  then show ?case using length_escape_char [of c] by (simp add: validator_escape_Cons)
qed

lemma length_validator_escape_amp:
  "0x26 \<in> set s \<Longrightarrow> length s + 4 \<le> length (validator_escape s)"
proof (induction s)
  case Nil
  then show ?case by simp
next
  case (Cons c s)
  show ?case
  proof (cases "c = 0x26")
    case True
    then have "length (escape_char c) = 5" by (simp add: escape_char_def js_def)
    then show ?thesis using length_validator_escape [of s] by (simp add: validator_escape_Cons)
  next
    case False
    with Cons have "length s + 4 \<le> length (validator_escape s)" by simp
    then show ?thesis using length_escape_char [of c] by (simp add: validator_escape_Cons)
  qed
qed

lemma escape_apostrophe: "0x27 \<in> set s \<Longrightarrow> 0x26 \<in> set (validator_escape s)"
proof (induction s)
  case Nil
  then show ?case by simp
next
  case (Cons c s)
  show ?case
  proof (cases "c = 0x27")
    case True
    then show ?thesis by (simp add: validator_escape_Cons escape_char_def js_def)
  next
    case False
    with Cons show ?thesis by (simp add: validator_escape_Cons)
  qed
qed

lemma set_dropWhile_keep: "c \<in> set s \<Longrightarrow> \<not> P c \<Longrightarrow> c \<in> set (dropWhile P s)"
  by (induction s) auto

lemma set_trim_keep: "c \<in> set s \<Longrightarrow> \<not> js_whitespace c \<Longrightarrow> c \<in> set (trim s)"
  by (simp add: trim_def set_dropWhile_keep)

lemma sanitize_apostrophe: "0x27 \<in> set s \<Longrightarrow> 0x26 \<in> set (sanitize s)"
  unfolding sanitize_def
  by (rule escape_apostrophe, rule set_trim_keep) (simp_all add: js_whitespace_def)

lemma name_path_error:
  "path_error name_validators x =
     (case x of None \<Rightarrow> Some ''Name is required''
      | Some v \<Rightarrow>
          if v = [] then Some ''Name is required''
          else if length v < 2 then Some ''Name must be at least 2 characters''
          else if 100 < length v then Some ''Name must be less than 100 characters''
          else if \<not> regex_test name_re v then Some ''Name can only contain letters and spaces''
          else None)"
  by (cases x) (auto simp add: name_validators_def)

lemma erCode_path_error:
  "path_error erCode_validators x =
     (case x of None \<Rightarrow> Some ''ER Code is required''
      | Some v \<Rightarrow>
          if v = [] then Some ''ER Code is required''
          else if \<not> regex_test erCode_re v
            then Some ''ER Code format must be ER followed by 6 digits''
          else None)"
  by (cases x) (auto simp add: erCode_validators_def)

lemma description_path_error:
  "path_error description_validators x =
     (case x of None \<Rightarrow> Some ''Description is required''
      | Some v \<Rightarrow>
          if v = [] then Some ''Description is required''
          else if length v < 10 then Some ''Description must be at least 10 characters''
          else if 500 < length v then Some ''Description must be less than 500 characters''
          else None)"
  by (cases x) (auto simp add: description_validators_def)

lemma modelNumber_path_error:
  "path_error modelNumber_validators x =
     (case x of None \<Rightarrow> Some ''Model Number is required''
      | Some v \<Rightarrow>
          if v = [] then Some ''Model Number is required''
          else if \<not> regex_test modelNumber_re v
            then Some ''Model Number format must be 2 letters + 4 digits + optional letter''
          else None)"
  by (cases x) (auto simp add: modelNumber_validators_def)

lemma validate_doc_Nil_iff:
  "(validate_doc d = []) =
     (path_error name_validators (d_name d) = None
      \<and> path_error productLine_validators (d_productLine d) = None
      \<and> path_error erCode_validators (d_erCode d) = None
      \<and> path_error description_validators (d_description d) = None
      \<and> path_error modelNumber_validators (d_modelNumber d) = None)"
  by (simp add: validate_doc_def formSubmissionSchema_def split: option.splits)

lemma set_errors:
  "set (map snd (validate_doc d)) =
     {m. path_error name_validators (d_name d) = Some m
       \<or> path_error productLine_validators (d_productLine d) = Some m
       \<or> path_error erCode_validators (d_erCode d) = Some m
       \<or> path_error description_validators (d_description d) = Some m
       \<or> path_error modelNumber_validators (d_modelNumber d) = Some m}"
proof -
  have "set (map snd xs) = {m. \<exists>p. (p, m) \<in> set xs}" for xs :: "(string \<times> string) list"
    by (induction xs) auto
  then have "set (map snd (validate_doc d)) = {m. \<exists>p. (p, m) \<in> set (validate_doc d)}" .
  also have "\<dots> = {m. path_error name_validators (d_name d) = Some m
       \<or> path_error productLine_validators (d_productLine d) = Some m
       \<or> path_error erCode_validators (d_erCode d) = Some m
       \<or> path_error description_validators (d_description d) = Some m
       \<or> path_error modelNumber_validators (d_modelNumber d) = Some m}"
    unfolding validate_doc_iff by blast
  finally show ?thesis .
qed

lemma distinct_paths: "distinct (map fst (validate_doc d))"
  by (simp add: validate_doc_def formSubmissionSchema_def split: option.splits)

lemma post_submissions_cases:
  "post_submissions env req st =
     (if \<not> all_present (sanitizeInput req) then (failure 400 ''All fields are required'', st)
      else if validate_doc (candidate env req) \<noteq> []
        then ((failure 400 ''Validation failed'')
                \<lparr>r_errors := Some (map snd (validate_doc (candidate env req)))\<rparr>, st)
      else (case store_fault env of
              Some m \<Rightarrow> ((failure 500 ''Failed to save form submission'')\<lparr>r_error := Some m\<rparr>, issue st)
            | None \<Rightarrow>
                if fresh_id env \<in> set (map d_id (docs st))
                then ((failure 500 ''Failed to save form submission'')
                        \<lparr>r_error := Some ''E11000 duplicate key error''\<rparr>, issue st)
                else (created (candidate env req),
                      issue (st\<lparr>docs := docs st @ [candidate env req]\<rparr>))))"
  unfolding post_submissions_eq candidate_def Let_def
  by (simp add: new_FormSubmission_def)

lemma candidate_fields:
  "d_name (candidate env req) = map_option sanitize (b_name req)"
  "d_productLine (candidate env req) = map_option sanitize (b_productLine req)"
  "d_erCode (candidate env req) = map_option sanitize (b_erCode req)"
  "d_description (candidate env req) = map_option sanitize (b_description req)"
  "d_modelNumber (candidate env req) = map_option sanitize (b_modelNumber req)"
  "d_submittedAt (candidate env req) = now env"
  "d_id (candidate env req) = fresh_id env"
  by (simp_all add: candidate_def new_FormSubmission_def sanitizeInput_def)

lemma path_ok_present:
  "path_error name_validators x = None \<Longrightarrow> \<not> falsy x"
  "path_error productLine_validators x = None \<Longrightarrow> \<not> falsy x"
  "path_error erCode_validators x = None \<Longrightarrow> \<not> falsy x"
  "path_error description_validators x = None \<Longrightarrow> \<not> falsy x"
  "path_error modelNumber_validators x = None \<Longrightarrow> \<not> falsy x"
  by (auto simp: falsy_def name_path_error productLine_path_error erCode_path_error
      description_path_error modelNumber_path_error split: option.splits if_splits)

lemma sanitize_ER12345: "sanitize (js ''ER12345'') = js ''ER12345''"
  by (simp add: sanitize_def trim_def validator_escape_def replace_all_def js_def js_whitespace_def)

lemma sanitize_ER123456: "sanitize (js ''ER123456'') = js ''ER123456''"
  by (simp add: sanitize_def trim_def validator_escape_def replace_all_def js_def js_whitespace_def)

lemma erCode_ER12345: "path_error erCode_validators (Some (js ''ER12345''))
    = Some ''ER Code format must be ER followed by 6 digits''"
  by (simp add: erCode_path_error erCode_re_iff js_def)

lemma erCode_ER123456: "path_error erCode_validators (Some (js ''ER123456'')) = None"
  by (simp add: erCode_path_error erCode_re_iff js_def is_digit_def)

lemma post_ER12345:
  assumes "b_erCode req = Some (js ''ER12345'')" "all_present (sanitizeInput req)"
  shows "\<exists>es. post_submissions env req st = ((failure 400 ''Validation failed'')\<lparr>r_errors := Some es\<rparr>, st)
        \<and> ''ER Code format must be ER followed by 6 digits'' \<in> set es"
proof -
  have "path_error erCode_validators (d_erCode (candidate env req))
      = Some ''ER Code format must be ER followed by 6 digits''"
    using assms(1) by (simp add: candidate_fields sanitize_ER12345 erCode_ER12345)
  then have m: "''ER Code format must be ER followed by 6 digits'' \<in> set (map snd (validate_doc (candidate env req)))"
    unfolding set_errors by simp
  then have "validate_doc (candidate env req) \<noteq> []" by auto
  then have "post_submissions env req st = ((failure 400 ''Validation failed'')
      \<lparr>r_errors := Some (map snd (validate_doc (candidate env req)))\<rparr>, st)"
    using assms(2) by (simp add: post_submissions_cases)
  with m show ?thesis by blast
qed

lemma post_ER123456:
  assumes "b_erCode req = Some (js ''ER123456'')"
    "path_error name_validators (b_name (sanitizeInput req)) = None"
    "path_error productLine_validators (b_productLine (sanitizeInput req)) = None"
    "path_error description_validators (b_description (sanitizeInput req)) = None"
    "path_error modelNumber_validators (b_modelNumber (sanitizeInput req)) = None"
    "store_fault env = None" "fresh_id env \<notin> set (map d_id (docs st))"
  shows "post_submissions env req st
     = (created (candidate env req), issue (st\<lparr>docs := docs st @ [candidate env req]\<rparr>))"
proof -
  have e: "path_error erCode_validators (b_erCode (sanitizeInput req)) = None"
    using assms(1) by (simp add: sanitizeInput_def sanitize_ER123456 erCode_ER123456)
  have p: "all_present (sanitizeInput req)"
    unfolding all_present_def using assms(2-5) e path_ok_present by blast
  have "validate_doc (candidate env req) = []"
    unfolding validate_doc_Nil_iff using assms(2-5) e
    by (simp add: candidate_def new_FormSubmission_def)
  then show ?thesis using p assms(6,7) by (simp add: post_submissions_cases)
qed

lemma amp_not_name: "\<not> (is_letter 0x26 \<or> js_whitespace 0x26)"
  by (simp add: is_letter_def js_whitespace_def)

lemma name_apostrophe:
  assumes "0x27 \<in> set n" "length (sanitize n) \<le> 100"
  shows "path_error name_validators (Some (sanitize n)) = Some ''Name can only contain letters and spaces''"
proof -
  have amp: "0x26 \<in> set (sanitize n)" using assms(1) by (rule sanitize_apostrophe)
  have t: "0x27 \<in> set (trim n)" using assms(1) by (rule set_trim_keep) (simp add: js_whitespace_def)
  from t obtain a b where "trim n = a @ 0x27 # b" by (auto simp: in_set_conv_decomp)
  then have "length (sanitize n) \<ge> 6"
    by (simp add: sanitize_def validator_escape_append validator_escape_Cons escape_char_def js_def)
  moreover have "\<not> regex_test name_re (sanitize n)"
    using amp amp_not_name by (auto simp: name_re_iff list_all_iff)
  ultimately show ?thesis using assms(2) by (auto simp: name_path_error)
qed

lemma description_amp:
  assumes "length v = 500" "0x26 \<in> set v" "trim v = v"
  shows "isValid (validateDescription v)"
    "path_error description_validators (Some (sanitize v)) = Some ''Description must be less than 500 characters''"
proof -
  show "isValid (validateDescription v)" using assms(1) by (auto simp: validateDescription_def)
  have "504 \<le> length (sanitize v)"
    using length_validator_escape_amp [OF assms(2)] assms(1,3) by (simp add: sanitize_def)
  then show "path_error description_validators (Some (sanitize v)) = Some ''Description must be less than 500 characters''"
    by (auto simp: description_path_error)
qed

lemma post_field_error:
  assumes "all_present (sanitizeInput req)"
    "m \<in> set (map snd (validate_doc (candidate env req)))"
  shows "r_status (fst (post_submissions env req st)) = 400 \<and> snd (post_submissions env req st) = st
     \<and> (\<exists>es. r_errors (fst (post_submissions env req st)) = Some es \<and> m \<in> set es)"
proof -
  have "validate_doc (candidate env req) \<noteq> []" using assms(2) by auto
  then show ?thesis using assms by (simp add: post_submissions_cases failure_def)
qed

section \<open>The stored timestamp\<close>

text \<open>
  C2: when a POST succeeds (status 201), the record returned and appended to the
  collection carries \<open>submittedAt = now env\<close>, the server's clock at the request;
  replacing the \<open>submittedAt\<close> of the request body by anything else changes neither the
  response nor the store; and the client does attach its own clock reading to every
  request it sends.
\<close>

theorem post_submittedAt_server_assigned:
  "(r_status (fst (post_submissions env req st)) = 201 \<longrightarrow>
      (\<exists>d. r_data (fst (post_submissions env req st)) = One d
          \<and> docs (snd (post_submissions env req st)) = docs st @ [d]
          \<and> d_submittedAt d = now env))
   \<and> post_submissions env (req\<lparr>b_submittedAt := t\<rparr>) st = post_submissions env req st
   \<and> sent (snd (submitForm w fd r eff)) ! length (sent eff)
       = \<lparr>p_formData = fd, p_submittedAt = client_now w (length (sent eff))\<rparr>"
proof -
  have "r_status (fst (post_submissions env req st)) = 201 \<Longrightarrow>
      (\<exists>d. r_data (fst (post_submissions env req st)) = One d
          \<and> docs (snd (post_submissions env req st)) = docs st @ [d]
          \<and> d_submittedAt d = now env)"
    by (drule post_201) (simp add: created_def issue_def new_FormSubmission_def)
  moreover have "post_submissions env (req\<lparr>b_submittedAt := t\<rparr>) st = post_submissions env req st"
    unfolding post_submissions_eq sanitizeInput_submittedAt ..
  ultimately show ?thesis using submitForm_sent_first [of w fd r eff] by blast
qed

theorem post_submittedAt_server_assigned_witness:
  "r_status (fst (post_submissions example_env example_body empty_store)) = 201
   \<and> b_submittedAt example_body = Some (js ''2024-05-01T10:00:00.000Z'')
   \<and> (\<exists>d. r_data (fst (post_submissions example_env example_body empty_store)) = One d
         \<and> docs (snd (post_submissions example_env example_body empty_store)) = [d]
         \<and> d_submittedAt d = 1714557600000)"
proof -
  have h: "r_status (fst (post_submissions example_env example_body empty_store)) = 201"
    by code_simp
  show ?thesis
    using h post_submittedAt_server_assigned [of example_env example_body empty_store None
        "\<lparr>respond = (\<lambda>n. Resolved (0::nat)), client_now = (\<lambda>n. 0)\<rparr>" empty_form 3
        "\<lparr>sent = [], slept = 0\<rparr>"]
    by (simp add: example_body_def example_env_def empty_store_def)
qed

section \<open>Validation responses of the create handler\<close>

text \<open>
  C6, as the specification states it, fails: a validation failure does not always
  enumerate the violated fields. For a request without \<open>name\<close> and with
  \<open>erCode = "ER12345"\<close> the schema is violated on two paths, yet the handler's own
  presence check answers first, with \<open>All fields are required\<close> and no list of errors.
\<close>

theorem post_missing_field_counterexample:
  "map snd (validate_doc (candidate example_env
       (example_body\<lparr>b_name := None, b_erCode := Some (js ''ER12345'')\<rparr>)))
     = [''Name is required'', ''ER Code format must be ER followed by 6 digits'']
   \<and> r_errors (fst (post_submissions example_env
       (example_body\<lparr>b_name := None, b_erCode := Some (js ''ER12345'')\<rparr>) empty_store)) = None
   \<and> r_message (fst (post_submissions example_env
       (example_body\<lparr>b_name := None, b_erCode := Some (js ''ER12345'')\<rparr>) empty_store))
     = Some ''All fields are required''"
  by code_simp

text \<open>
  C6, amended. With \<open>erCode = "ER12345"\<close> and all five fields non-empty after
  sanitisation, the request is rejected with status 400, \<open>Validation failed\<close>, the
  erCode message among the errors, and nothing written. With \<open>erCode = "ER123456"\<close>,
  the other four fields satisfying the schema after sanitisation, a working store and a
  fresh identifier, the response is 201 with the persisted record. Whenever all five
  fields are non-empty after sanitisation and the schema is violated, the response is
  400 with exactly one message for each violating field, and nothing is written. When
  a field is missing or empty after sanitisation, the response is 400
  \<open>All fields are required\<close> without a list, and nothing is written.
\<close>

theorem post_validation_responses:
  "(b_erCode req = Some (js ''ER12345'') \<and> all_present (sanitizeInput req) \<longrightarrow>
      (\<exists>es. post_submissions env req st
             = ((failure 400 ''Validation failed'')\<lparr>r_errors := Some es\<rparr>, st)
           \<and> ''ER Code format must be ER followed by 6 digits'' \<in> set es))
   \<and> (b_erCode req = Some (js ''ER123456'')
       \<and> path_error name_validators (b_name (sanitizeInput req)) = None
       \<and> path_error productLine_validators (b_productLine (sanitizeInput req)) = None
       \<and> path_error description_validators (b_description (sanitizeInput req)) = None
       \<and> path_error modelNumber_validators (b_modelNumber (sanitizeInput req)) = None
       \<and> store_fault env = None \<and> fresh_id env \<notin> set (map d_id (docs st)) \<longrightarrow>
       post_submissions env req st
         = (created (candidate env req), issue (st\<lparr>docs := docs st @ [candidate env req]\<rparr>)))
   \<and> (all_present (sanitizeInput req) \<and> validate_doc (candidate env req) \<noteq> [] \<longrightarrow>
        post_submissions env req st
          = ((failure 400 ''Validation failed'')
               \<lparr>r_errors := Some (map snd (validate_doc (candidate env req)))\<rparr>, st)
        \<and> distinct (map fst (validate_doc (candidate env req)))
        \<and> set (map snd (validate_doc (candidate env req)))
            = {m. path_error name_validators (map_option sanitize (b_name req)) = Some m
                \<or> path_error productLine_validators (map_option sanitize (b_productLine req)) = Some m
                \<or> path_error erCode_validators (map_option sanitize (b_erCode req)) = Some m
                \<or> path_error description_validators (map_option sanitize (b_description req)) = Some m
                \<or> path_error modelNumber_validators (map_option sanitize (b_modelNumber req)) = Some m})
   \<and> (\<not> all_present (sanitizeInput req) \<longrightarrow>
        post_submissions env req st = (failure 400 ''All fields are required'', st))"
proof -
  have c: "all_present (sanitizeInput req) \<and> validate_doc (candidate env req) \<noteq> [] \<Longrightarrow>
        post_submissions env req st
          = ((failure 400 ''Validation failed'')
               \<lparr>r_errors := Some (map snd (validate_doc (candidate env req)))\<rparr>, st)"
    by (simp add: post_submissions_cases)
  have s: "set (map snd (validate_doc (candidate env req)))
            = {m. path_error name_validators (map_option sanitize (b_name req)) = Some m
                \<or> path_error productLine_validators (map_option sanitize (b_productLine req)) = Some m
                \<or> path_error erCode_validators (map_option sanitize (b_erCode req)) = Some m
                \<or> path_error description_validators (map_option sanitize (b_description req)) = Some m
                \<or> path_error modelNumber_validators (map_option sanitize (b_modelNumber req)) = Some m}"
    unfolding set_errors candidate_fields ..
  have d: "\<not> all_present (sanitizeInput req) \<Longrightarrow>
        post_submissions env req st = (failure 400 ''All fields are required'', st)"
    by (simp add: post_submissions_cases)
  show ?thesis
    using post_ER12345 [of req env st] post_ER123456 [of req env st] c s d
      distinct_paths [of "candidate env req"]
    by blast
qed

theorem post_validation_responses_witness:
  "post_submissions example_env (example_body\<lparr>b_erCode := Some (js ''ER12345'')\<rparr>) empty_store
     = ((failure 400 ''Validation failed'')
          \<lparr>r_errors := Some [''ER Code format must be ER followed by 6 digits'']\<rparr>, empty_store)
   \<and> post_submissions example_env example_body empty_store
     = (created (candidate example_env example_body),
        issue (empty_store\<lparr>docs := [candidate example_env example_body]\<rparr>))
   \<and> post_submissions example_env (example_body\<lparr>b_name := Some (js ''  '')\<rparr>) empty_store
     = (failure 400 ''All fields are required'', empty_store)"
proof -
  let ?bad = "example_body\<lparr>b_erCode := Some (js ''ER12345'')\<rparr>"
  let ?blank = "example_body\<lparr>b_name := Some (js ''  '')\<rparr>"
  have h1: "b_erCode ?bad = Some (js ''ER12345'')" by simp
  have h2: "all_present (sanitizeInput ?bad)" by code_simp
  have h3: "validate_doc (candidate example_env ?bad) \<noteq> []" by code_simp
  have h4: "map snd (validate_doc (candidate example_env ?bad))
     = [''ER Code format must be ER followed by 6 digits'']" by code_simp
  have g1: "b_erCode example_body = Some (js ''ER123456'')" by (simp add: example_body_def)
  have g2: "path_error name_validators (b_name (sanitizeInput example_body)) = None" by code_simp
  have g3: "path_error productLine_validators (b_productLine (sanitizeInput example_body)) = None"
    by code_simp
  have g4: "path_error description_validators (b_description (sanitizeInput example_body)) = None"
    by code_simp
  have g5: "path_error modelNumber_validators (b_modelNumber (sanitizeInput example_body)) = None"
    by code_simp
  have g6: "store_fault example_env = None" by (simp add: example_env_def)
  have g7: "fresh_id example_env \<notin> set (map d_id (docs empty_store))"
    by (simp add: empty_store_def)
  have k: "\<not> all_present (sanitizeInput ?blank)" by code_simp
  show ?thesis
    using post_validation_responses [of ?bad example_env empty_store]
      post_validation_responses [of example_body example_env empty_store]
      post_validation_responses [of ?blank example_env empty_store]
      h1 h2 h3 h4 g1 g2 g3 g4 g5 g6 g7 k
    by (simp add: empty_store_def)
qed

section \<open>Sanitisation before validation\<close>

text \<open>
  The client's own validator refuses a name with an apostrophe, and so does the schema
  when nothing is escaped: the apostrophe is neither a letter nor white space.
\<close>

lemma validateName_apostrophe: "0x27 \<in> set n \<Longrightarrow> \<not> isValid (validateName n)"
proof
  assume a: "0x27 \<in> set n" and v: "isValid (validateName n)"
  from v have "regex_test name_re n"
    by (auto simp: validateName_def split: if_splits)
  then have "is_letter 0x27 \<or> js_whitespace 0x27"
    using a by (auto simp: name_re_iff list_all_iff)
  then show False by (simp add: is_letter_def js_whitespace_def)
qed

lemma name_schema_apostrophe:
  "0x27 \<in> set n \<Longrightarrow> path_error name_validators (Some n) \<noteq> None"
proof
  assume a: "0x27 \<in> set n" and v: "path_error name_validators (Some n) = None"
  from v have "regex_test name_re n"
    by (auto simp: name_path_error split: if_splits)
  then have "is_letter 0x27 \<or> js_whitespace 0x27"
    using a by (auto simp: name_re_iff list_all_iff)
  then show False by (simp add: is_letter_def js_whitespace_def)
qed

text \<open>
  C10, as stated, fails in one of its examples: it gives a name with an apostrophe as a
  value valid at the client that the server rejects because of the escaping. The name
  \<open>O'Brien\<close> is not valid at the client, and the schema refuses it with the same
  message when it is not escaped at all.
\<close>

theorem post_apostrophe_counterexample:
  "\<not> isValid (validateName (js ''O'Brien''))
   \<and> message (validateName (js ''O'Brien'')) = ''Name can only contain letters and spaces''
   \<and> path_error name_validators (Some (js ''O'Brien''))
       = Some ''Name can only contain letters and spaces''"
  by code_simp

text \<open>
  C10, amended: the create handler validates and stores the trimmed and HTML-escaped
  value of every field. A successful POST stores the document built from the sanitised
  fields, so a stored value may differ from the submitted one, and a value valid at the
  client can be rejected or changed by the server: a description of exactly 500
  characters without outer white space that contains an ampersand passes the client's
  validator, is longer than 500 once escaped, and is rejected; and a description without
  outer white space that contains an ampersand is never stored as submitted. A name
  with an apostrophe (at most 100 characters once escaped) is escaped and rejected with
  the letters-and-spaces message, but it is no value valid at the client: the client's
  validator refuses it, and so does the schema without any escaping.
\<close>

theorem post_sanitizes_before_validation:
  "(r_status (fst (post_submissions env req st)) = 201 \<longrightarrow>
      docs (snd (post_submissions env req st)) = docs st @ [candidate env req]
      \<and> r_data (fst (post_submissions env req st)) = One (candidate env req)
      \<and> validate_doc (candidate env req) = [])
   \<and> d_name (candidate env req) = map_option (\<lambda>v. validator_escape (trim v)) (b_name req)
   \<and> d_productLine (candidate env req) = map_option (\<lambda>v. validator_escape (trim v)) (b_productLine req)
   \<and> d_erCode (candidate env req) = map_option (\<lambda>v. validator_escape (trim v)) (b_erCode req)
   \<and> d_description (candidate env req) = map_option (\<lambda>v. validator_escape (trim v)) (b_description req)
   \<and> d_modelNumber (candidate env req) = map_option (\<lambda>v. validator_escape (trim v)) (b_modelNumber req)
   \<and> (b_name req = Some n \<and> 0x27 \<in> set n \<and> length (validator_escape (trim n)) \<le> 100
        \<and> all_present (sanitizeInput req) \<longrightarrow>
        r_status (fst (post_submissions env req st)) = 400
        \<and> snd (post_submissions env req st) = st
        \<and> (\<exists>es. r_errors (fst (post_submissions env req st)) = Some es
              \<and> ''Name can only contain letters and spaces'' \<in> set es))
   \<and> (b_description req = Some v \<and> length v = 500 \<and> 0x26 \<in> set v \<and> trim v = v
        \<and> all_present (sanitizeInput req) \<longrightarrow>
        isValid (validateDescription v)
        \<and> 500 < length (validator_escape (trim v))
        \<and> r_status (fst (post_submissions env req st)) = 400
        \<and> snd (post_submissions env req st) = st
        \<and> (\<exists>es. r_errors (fst (post_submissions env req st)) = Some es
              \<and> ''Description must be less than 500 characters'' \<in> set es))
   \<and> (b_description req = Some v \<and> 0x26 \<in> set v \<and> trim v = v \<longrightarrow>
        d_description (candidate env req) \<noteq> Some v)
   \<and> (0x27 \<in> set n \<longrightarrow>
        \<not> isValid (validateName n) \<and> path_error name_validators (Some n) \<noteq> None)"
proof -
  have a: "r_status (fst (post_submissions env req st)) = 201 \<Longrightarrow>
      docs (snd (post_submissions env req st)) = docs st @ [candidate env req]
      \<and> r_data (fst (post_submissions env req st)) = One (candidate env req)
      \<and> validate_doc (candidate env req) = []"
    unfolding post_submissions_cases
    by (auto simp: failure_def created_def issue_def split: if_splits option.splits)
  have b: "r_status (fst (post_submissions env req st)) = 400
        \<and> snd (post_submissions env req st) = st
        \<and> (\<exists>es. r_errors (fst (post_submissions env req st)) = Some es
              \<and> ''Name can only contain letters and spaces'' \<in> set es)"
    if h: "b_name req = Some n" "0x27 \<in> set n" "length (validator_escape (trim n)) \<le> 100"
      "all_present (sanitizeInput req)"
  proof (rule post_field_error [OF h(4)])
    have "path_error name_validators (d_name (candidate env req))
        = Some ''Name can only contain letters and spaces''"
      using name_apostrophe [of n] h(1,2,3) by (simp add: candidate_fields sanitize_def)
    then show "''Name can only contain letters and spaces'' \<in> set (map snd (validate_doc (candidate env req)))"
      unfolding set_errors by simp
  qed
  have c: "isValid (validateDescription v)
        \<and> 500 < length (validator_escape (trim v))
        \<and> r_status (fst (post_submissions env req st)) = 400
        \<and> snd (post_submissions env req st) = st
        \<and> (\<exists>es. r_errors (fst (post_submissions env req st)) = Some es
              \<and> ''Description must be less than 500 characters'' \<in> set es)"
    if h: "b_description req = Some v" "length v = 500" "0x26 \<in> set v" "trim v = v"
      "all_present (sanitizeInput req)"
  proof -
    have "path_error description_validators (d_description (candidate env req))
        = Some ''Description must be less than 500 characters''"
      using description_amp(2) [of v] h(1-4) by (simp add: candidate_fields)
    then have "''Description must be less than 500 characters'' \<in> set (map snd (validate_doc (candidate env req)))"
      unfolding set_errors by simp
    from post_field_error [OF h(5) this, of st] description_amp(1) [of v] h(2-4)
      length_validator_escape_amp [OF h(3)]
    show ?thesis by simp
  qed
  have d: "d_description (candidate env req) \<noteq> Some v"
    if h: "b_description req = Some v" "0x26 \<in> set v" "trim v = v"
  proof -
    have "length v < length (sanitize v)"
      using length_validator_escape_amp [OF h(2)] h(3) by (simp add: sanitize_def)
    then have "sanitize v \<noteq> v" by auto
    then show ?thesis using h(1) by (simp add: candidate_fields)
  qed
  have e: "0x27 \<in> set n \<longrightarrow>
        \<not> isValid (validateName n) \<and> path_error name_validators (Some n) \<noteq> None"
    using validateName_apostrophe [of n] name_schema_apostrophe [of n] by blast
  show ?thesis
    using a b c d e by (simp add: candidate_fields sanitize_def [abs_def])
qed

theorem post_sanitizes_before_validation_witness:
  "validator_escape (trim (js ''O'Brien'')) = js ''O&#x27;Brien''
   \<and> \<not> isValid (validateName (js ''O'Brien''))
   \<and> r_status (fst (post_submissions example_env
         (example_body\<lparr>b_name := Some (js ''O'Brien'')\<rparr>) empty_store)) = 400
   \<and> (\<exists>es. r_errors (fst (post_submissions example_env
         (example_body\<lparr>b_name := Some (js ''O'Brien'')\<rparr>) empty_store)) = Some es
        \<and> ''Name can only contain letters and spaces'' \<in> set es)
   \<and> isValid (validateDescription long_description)
   \<and> r_status (fst (post_submissions example_env
         (example_body\<lparr>b_description := Some long_description\<rparr>) empty_store)) = 400
   \<and> (\<exists>es. r_errors (fst (post_submissions example_env
         (example_body\<lparr>b_description := Some long_description\<rparr>) empty_store)) = Some es
        \<and> ''Description must be less than 500 characters'' \<in> set es)
   \<and> isValid (validateDescription (js ''Tom & Jerry went fishing''))
   \<and> r_status (fst (post_submissions example_env
         (example_body\<lparr>b_description := Some (js ''Tom & Jerry went fishing'')\<rparr>) empty_store)) = 201
   \<and> docs (snd (post_submissions example_env
         (example_body\<lparr>b_description := Some (js ''Tom & Jerry went fishing'')\<rparr>) empty_store))
       = [candidate example_env (example_body\<lparr>b_description := Some (js ''Tom & Jerry went fishing'')\<rparr>)]
   \<and> d_description (candidate example_env
         (example_body\<lparr>b_description := Some (js ''Tom & Jerry went fishing'')\<rparr>))
       = Some (js ''Tom &amp; Jerry went fishing'')"
proof -
  let ?a = "example_body\<lparr>b_name := Some (js ''O'Brien'')\<rparr>"
  let ?d = "example_body\<lparr>b_description := Some long_description\<rparr>"
  let ?m = "example_body\<lparr>b_description := Some (js ''Tom & Jerry went fishing'')\<rparr>"
  have e: "validator_escape (trim (js ''O'Brien'')) = js ''O&#x27;Brien''" by code_simp
  have a1: "b_name ?a = Some (js ''O'Brien'')" by simp
  have a2: "0x27 \<in> set (js ''O'Brien'')" by (simp add: js_def)
  have a3: "length (validator_escape (trim (js ''O'Brien''))) \<le> 100"
    unfolding e by (simp add: js_def)
  have a4: "all_present (sanitizeInput ?a)" by code_simp
  have d1: "b_description ?d = Some long_description" by simp
  have d2: "length long_description = 500" by (simp add: long_description_def)
  have d3: "0x26 \<in> set long_description" by (simp add: long_description_def)
  have d4: "trim long_description = long_description"
    by (rule trim_id) (simp add: long_description_def js_whitespace_def)
  have d5: "all_present (sanitizeInput ?d)" by code_simp
  have m1: "r_status (fst (post_submissions example_env ?m empty_store)) = 201" by code_simp
  have m2: "isValid (validateDescription (js ''Tom & Jerry went fishing''))" by code_simp
  have m3: "d_description (candidate example_env ?m) = Some (js ''Tom &amp; Jerry went fishing'')"
    by code_simp
  show ?thesis
    using post_sanitizes_before_validation [of example_env ?a empty_store "js ''O'Brien''" long_description]
      post_sanitizes_before_validation [of example_env ?d empty_store "js ''O'Brien''" long_description]
      post_sanitizes_before_validation [of example_env ?m empty_store "js ''O'Brien''" long_description]
      e a1 a2 a3 a4 d1 d2 d3 d4 d5 m1 m2 m3
    by (simp add: empty_store_def)
qed

section \<open>The API service: retries\<close>

declare submitForm.simps [simp del]

lemma submitForm_resolved:
  "respond w (length (sent eff)) = Resolved d \<Longrightarrow>
   submitForm w fd r eff =
     (\<lparr>success = True, res_message = ''Form submitted successfully'', res_data = Some d\<rparr>,
      push w fd eff)"
  by (subst submitForm.simps) (simp add: push_def Let_def)

lemma submitForm_retry:
  "respond w (length (sent eff)) = Rejected e \<Longrightarrow> 0 < r \<Longrightarrow> network_error e \<Longrightarrow>
   submitForm w fd r eff = submitForm w fd (r - 1) ((push w fd eff)\<lparr>slept := slept eff + 1000\<rparr>)"
  by (subst submitForm.simps) (simp add: push_def network_error_def Let_def)

lemma submitForm_fail:
  "respond w (length (sent eff)) = Rejected e \<Longrightarrow> \<not> (0 < r \<and> network_error e) \<Longrightarrow>
   submitForm w fd r eff =
     (\<lparr>success = False, res_message = errorMessage e, res_data = None\<rparr>, push w fd eff)"
  by (subst submitForm.simps) (auto simp add: push_def network_error_def Let_def)

lemma push_simps [simp]:
  "length (sent (push w fd eff)) = Suc (length (sent eff))"
  "slept (push w fd eff) = slept eff"
  by (simp_all add: push_def)

lemma submitForm_bounds:
  "Suc (length (sent eff)) \<le> length (sent (snd (submitForm w fd r eff)))
   \<and> length (sent (snd (submitForm w fd r eff))) \<le> Suc (length (sent eff)) + nat r
   \<and> slept (snd (submitForm w fd r eff))
       = slept eff + 1000 * (length (sent (snd (submitForm w fd r eff))) - Suc (length (sent eff)))"
proof (induction w fd r eff rule: submitForm.induct)
  case (1 w fd retries eff)
  show ?case
  proof (cases "respond w (length (sent eff))")
    case (Resolved d)
    then show ?thesis by (simp add: submitForm_resolved)
  next
    case (Rejected e)
    show ?thesis
    proof (cases "0 < retries \<and> network_error e")
      case True
      let ?eff2 = "(push w fd eff)\<lparr>slept := slept eff + 1000\<rparr>"
      have eq: "submitForm w fd retries eff = submitForm w fd (retries - 1) ?eff2"
        using Rejected True by (simp add: submitForm_retry)
      have "?eff2 =
         (eff\<lparr>sent := sent eff @ [\<lparr>p_formData = fd, p_submittedAt = client_now w (length (sent eff))\<rparr>]\<rparr>)
          \<lparr>slept := slept (eff\<lparr>sent := sent eff @ [\<lparr>p_formData = fd, p_submittedAt = client_now w (length (sent eff))\<rparr>]\<rparr>) + 1000\<rparr>"
        by (simp add: push_def)
      with "1.IH" [OF refl refl Rejected] True
      have ih: "Suc (length (sent ?eff2)) \<le> length (sent (snd (submitForm w fd (retries - 1) ?eff2)))
         \<and> length (sent (snd (submitForm w fd (retries - 1) ?eff2))) \<le> Suc (length (sent ?eff2)) + nat (retries - 1)
         \<and> slept (snd (submitForm w fd (retries - 1) ?eff2))
             = slept ?eff2 + 1000 * (length (sent (snd (submitForm w fd (retries - 1) ?eff2))) - Suc (length (sent ?eff2)))"
        by (simp add: network_error_def)
      have "nat (retries - 1) + 1 = nat retries" using True by arith
      with ih show ?thesis unfolding eq by (simp, arith)
    next
      case False
      then show ?thesis using Rejected by (simp add: submitForm_fail)
    qed
  qed
qed

lemma errorMessage_cases:
  "errorMessage e =
     (if \<exists>m. response_message e = Some m \<and> m \<noteq> [] then the (response_message e)
      else if \<exists>m. err_message e = Some m \<and> m \<noteq> [] then the (err_message e)
      else generic_message)"
  by (auto simp: errorMessage_def or_else_def split: option.splits)

lemma http_failure_not_network: "http_failure e \<Longrightarrow> \<not> network_error e"
  by (auto simp: http_failure_def network_error_def)

lemma submitForm_last:
  "(\<forall>i. length (sent eff) \<le> i \<and> Suc i < length (sent (snd (submitForm w fd r eff)))
        \<longrightarrow> (\<exists>e. respond w i = Rejected e))
   \<and> fst (submitForm w fd r eff)
       = (case respond w (length (sent (snd (submitForm w fd r eff))) - 1) of
            Resolved d \<Rightarrow> succeeded d | Rejected e \<Rightarrow> failed e)"
proof (induction w fd r eff rule: submitForm.induct)
  case (1 w fd retries eff)
  show ?case
  proof (cases "respond w (length (sent eff))")
    case (Resolved d)
    then show ?thesis by (auto simp add: submitForm_resolved succeeded_def)
  next
    case (Rejected e)
    show ?thesis
    proof (cases "0 < retries \<and> network_error e")
      case True
      let ?eff2 = "(push w fd eff)\<lparr>slept := slept eff + 1000\<rparr>"
      have eq: "submitForm w fd retries eff = submitForm w fd (retries - 1) ?eff2"
        using Rejected True by (simp add: submitForm_retry)
      have "?eff2 =
         (eff\<lparr>sent := sent eff @ [\<lparr>p_formData = fd, p_submittedAt = client_now w (length (sent eff))\<rparr>]\<rparr>)
          \<lparr>slept := slept (eff\<lparr>sent := sent eff @ [\<lparr>p_formData = fd, p_submittedAt = client_now w (length (sent eff))\<rparr>]\<rparr>) + 1000\<rparr>"
        by (simp add: push_def)
      with "1.IH" [OF refl refl Rejected] True
      have ih: "(\<forall>i. length (sent ?eff2) \<le> i \<and> Suc i < length (sent (snd (submitForm w fd (retries - 1) ?eff2)))
            \<longrightarrow> (\<exists>e. respond w i = Rejected e))
        \<and> fst (submitForm w fd (retries - 1) ?eff2)
           = (case respond w (length (sent (snd (submitForm w fd (retries - 1) ?eff2))) - 1) of
                Resolved d \<Rightarrow> succeeded d | Rejected e \<Rightarrow> failed e)"
        by (simp add: network_error_def)
      have l: "length (sent ?eff2) = Suc (length (sent eff))" by simp
      have "\<exists>e. respond w i = Rejected e"
        if "length (sent eff) \<le> i" "Suc i < length (sent (snd (submitForm w fd (retries - 1) ?eff2)))"
        for i
      proof (cases "i = length (sent eff)")
        case True
        then show ?thesis using Rejected by simp
      next
        case False
        with that have "length (sent ?eff2) \<le> i" unfolding l by simp
        with ih that(2) show ?thesis by blast
      qed
      with ih show ?thesis unfolding eq by blast
    next
      case False
      then show ?thesis using Rejected by (auto simp add: submitForm_fail failed_def)
    qed
  qed
qed

text \<open>
  C3, as the specification states it, fails in its last part: when the server's error
  body carries no message, \<open>submitForm\<close> returns the error's own message, and the generic
  message only when that is empty too. A request that times out is answered with
  \<open>timeout of 10000ms exceeded\<close>, after a single attempt. That is how the code is
  written (its comment: more detailed error information).
\<close>

theorem submitForm_message_counterexample:
  "res_message (fst (submitForm timing_out empty_form 3 no_effects)) = ''timeout of 10000ms exceeded''
   \<and> spec_errorMessage timeout_error = ''Failed to submit form. Please try again later.''
   \<and> length (sent (snd (submitForm timing_out empty_form 3 no_effects))) = 1"
  by (subst (1 2) submitForm.simps)
     (simp add: timing_out_def timeout_error_def no_effects_def errorMessage_def or_else_def
        spec_errorMessage_def generic_message_def Let_def)

text \<open>
  C3, amended. \<open>submitForm\<close> makes at least one request and at most one more than the
  retry count (3 by default), and sleeps a fixed 1000 ms before every request after the
  first; every request before the last one has failed, so it retries only failures. Its
  result is that of the last request: the success result with the record the server
  echoes, or \<open>{success: false, message}\<close>. A request that succeeds, a failure that
  carries the server's response (a validation rejection, a server error), and any
  failure when no retry is left, end it at once, after that one request. The message
  of a failure is the server's error-body message when that is a non-empty string, else
  the error's own message when non-empty, else the generic message. Which failures are
  retried is left out of this statement.
\<close>

theorem submitForm_attempts_and_message:
  "length (sent eff) + 1 \<le> length (sent (snd (submitForm w fd retries eff)))
   \<and> length (sent (snd (submitForm w fd retries eff))) \<le> length (sent eff) + 1 + nat retries
   \<and> slept (snd (submitForm w fd retries eff))
       = slept eff + 1000 * (length (sent (snd (submitForm w fd retries eff))) - (length (sent eff) + 1))
   \<and> (\<forall>i. length (sent eff) \<le> i \<and> i + 1 < length (sent (snd (submitForm w fd retries eff)))
         \<longrightarrow> (\<exists>x. respond w i = Rejected x))
   \<and> fst (submitForm w fd retries eff)
       = (case respond w (length (sent (snd (submitForm w fd retries eff))) - 1) of
            Resolved x \<Rightarrow> succeeded x | Rejected x \<Rightarrow> failed x)
   \<and> (respond w (length (sent eff)) = Resolved d \<longrightarrow>
        submitForm w fd retries eff = (succeeded d, push w fd eff))
   \<and> (respond w (length (sent eff)) = Rejected e \<and> http_failure e \<longrightarrow>
        submitForm w fd retries eff = (failed e, push w fd eff))
   \<and> (respond w (length (sent eff)) = Rejected e \<and> retries \<le> 0 \<longrightarrow>
        submitForm w fd retries eff = (failed e, push w fd eff))
   \<and> res_message (failed e :: 'd IApiResponse) =
       (if \<exists>m. response_message e = Some m \<and> m \<noteq> [] then the (response_message e)
        else if \<exists>m. err_message e = Some m \<and> m \<noteq> [] then the (err_message e)
        else generic_message)
   \<and> \<not> success (failed e :: 'd IApiResponse)"
proof -
  have a: "respond w (length (sent eff)) = Resolved d \<Longrightarrow>
        submitForm w fd retries eff = (succeeded d, push w fd eff)"
    by (simp add: submitForm_resolved succeeded_def)
  have b: "respond w (length (sent eff)) = Rejected e \<and> http_failure e \<Longrightarrow>
        submitForm w fd retries eff = (failed e, push w fd eff)"
    using http_failure_not_network [of e] by (simp add: submitForm_fail failed_def)
  have c: "respond w (length (sent eff)) = Rejected e \<and> retries \<le> 0 \<Longrightarrow>
        submitForm w fd retries eff = (failed e, push w fd eff)"
    by (simp add: submitForm_fail failed_def)
  have m: "res_message (failed e :: 'd IApiResponse) =
       (if \<exists>m. response_message e = Some m \<and> m \<noteq> [] then the (response_message e)
        else if \<exists>m. err_message e = Some m \<and> m \<noteq> [] then the (err_message e)
        else generic_message)"
    using errorMessage_cases [of e] by (simp add: failed_def)
  have s: "\<not> success (failed e :: 'd IApiResponse)" by (simp add: failed_def)
  show ?thesis
    using a b c m s submitForm_bounds [of eff w fd retries] submitForm_last [of eff w fd retries]
    by simp
qed

theorem submitForm_attempts_and_message_witness:
  "submitForm refusing empty_form 3 no_effects =
       (\<lparr>success = False, res_message = ''Validation failed'', res_data = None\<rparr>,
        push refusing empty_form no_effects)
   \<and> length (sent (snd (submitForm refusing empty_form 3 no_effects))) = 1
   \<and> slept (snd (submitForm refusing empty_form 3 no_effects)) = 0
   \<and> submitForm answering empty_form 3 no_effects =
       (\<lparr>success = True, res_message = ''Form submitted successfully'', res_data = Some 42\<rparr>,
        push answering empty_form no_effects)"
proof -
  let ?br = "\<lparr>code = Some ''ERR_BAD_REQUEST'',
        err_message = Some ''Request failed with status code 400'',
        response_message = Some ''Validation failed''\<rparr>"
  have r: "respond refusing (length (sent no_effects)) = Rejected ?br" "http_failure ?br"
    by (simp_all add: refusing_def http_failure_def)
  have k: "respond answering (length (sent no_effects)) = Resolved 42"
    by (simp add: answering_def)
  from submitForm_attempts_and_message [where w = refusing and eff = no_effects and e = ?br
        and d = 0 and fd = empty_form and retries = 3] r
  have B: "submitForm refusing empty_form 3 no_effects = (failed ?br, push refusing empty_form no_effects)"
    by blast
  from submitForm_attempts_and_message [where w = answering and eff = no_effects and e = ?br
        and d = 42 and fd = empty_form and retries = 3] k
  have A: "submitForm answering empty_form 3 no_effects = (succeeded 42, push answering empty_form no_effects)"
    by blast
  have C: "failed ?br = \<lparr>success = False, res_message = ''Validation failed'', res_data = None\<rparr>"
    by (simp add: failed_def errorMessage_def or_else_def)
  show ?thesis unfolding A B C by (simp add: no_effects_def succeeded_def)
qed

text \<open>
  What the amended statement leaves out. The test before the retry reads
  \<open>error.code === 'NETWORK_ERROR'\<close>, under the comment \<open>Retry logic for network errors\<close>,
  but axios gives a failed connection the code \<open>ERR_NETWORK\<close>. So a connection that fails
  twice and would then answer is not retried at all: \<open>submitForm\<close> returns the failure
  after one request, without waiting. The specification's retry scenario (two network
  failures, then a success after 3 attempts) is what the comment intends and not what
  the code does.
\<close>

lemma submitForm_ERR_NETWORK:
  "respond offline 0 = Rejected \<lparr>code = Some ''ERR_NETWORK'', err_message = Some ''Network Error'',
       response_message = None\<rparr>
   \<and> respond offline 2 = Resolved 42
   \<and> submitForm offline empty_form 3 no_effects =
       (\<lparr>success = False, res_message = ''Network Error'', res_data = None\<rparr>,
        push offline empty_form no_effects)
   \<and> length (sent (push offline empty_form no_effects)) = 1
   \<and> slept (push offline empty_form no_effects) = 0"
  by (subst submitForm.simps)
     (simp add: offline_def no_effects_def errorMessage_def or_else_def Let_def push_def)

section \<open>The form: validity and submission\<close>

lemma allValid_iff:
  "allValid fd =
     (isValid (validateName (name fd)) \<and> isValid (validateProductLine (productLine fd))
      \<and> isValid (validateERCode (erCode fd)) \<and> isValid (validateDescription (description fd))
      \<and> isValid (validateModelNumber (modelNumber fd))
      \<and> trim (name fd) \<noteq> [] \<and> trim (productLine fd) \<noteq> [] \<and> trim (erCode fd) \<noteq> []
      \<and> trim (description fd) \<noteq> [] \<and> trim (modelNumber fd) \<noteq> [])"
  by (simp add: allValid_def validations_def Object_values_def)

lemma allValid_empty: "\<not> allValid empty_form"
  by (simp add: allValid_iff empty_form_def validateName_def)

lemma handleSubmit_invalid: "\<not> isFormValid st \<Longrightarrow> handleSubmit w st eff = (st, eff)"
  by (simp add: handleSubmit_def)

lemma handleSubmit_valid:
  "isFormValid st \<Longrightarrow> length (sent eff) < length (sent (snd (handleSubmit w st eff)))"
  using submitForm_bounds [of eff w "formData st" 3]
  by (auto simp add: handleSubmit_def split: prod.splits)

text \<open>
  C7: the validity flag computed by the form's effect is the conjunction of the five
  validators' \<open>isValid\<close> and of the five values being non-blank after trimming; a
  submit while the flag is false changes nothing and sends nothing, in particular for
  the empty form and in the initial state; a submit while it is true sends a request.
\<close>

theorem form_validity_gates_submit:
  "isFormValid (validity_effect st) =
     (isValid (validateName (name (formData st)))
      \<and> isValid (validateProductLine (productLine (formData st)))
      \<and> isValid (validateERCode (erCode (formData st)))
      \<and> isValid (validateDescription (description (formData st)))
      \<and> isValid (validateModelNumber (modelNumber (formData st)))
      \<and> trim (name (formData st)) \<noteq> [] \<and> trim (productLine (formData st)) \<noteq> []
      \<and> trim (erCode (formData st)) \<noteq> [] \<and> trim (description (formData st)) \<noteq> []
      \<and> trim (modelNumber (formData st)) \<noteq> [])
   \<and> (\<not> isFormValid st \<longrightarrow> handleSubmit w st eff = (st, eff))
   \<and> (isFormValid st \<longrightarrow> length (sent eff) < length (sent (snd (handleSubmit w st eff))))
   \<and> (formData st = empty_form \<longrightarrow>
        handleSubmit w (validity_effect st) eff = (validity_effect st, eff))
   \<and> handleSubmit w (initial_state ls) eff = (initial_state ls, eff)"
proof -
  have a: "isFormValid (validity_effect st) = allValid (formData st)"
    by (simp add: validity_effect_def)
  have b: "formData st = empty_form \<Longrightarrow> \<not> isFormValid (validity_effect st)"
    using allValid_empty by (simp add: validity_effect_def)
  have c: "\<not> isFormValid (initial_state ls)"
    using allValid_empty by (simp add: initial_state_def validity_effect_def)
  show ?thesis
    using a allValid_iff [of "formData st"] b c handleSubmit_invalid [of st w eff]
      handleSubmit_invalid [of "validity_effect st" w eff]
      handleSubmit_invalid [of "initial_state ls" w eff] handleSubmit_valid [of st eff w]
    by simp
qed

theorem form_validity_gates_submit_witness:
  "\<not> isFormValid (initial_state Map.empty)
   \<and> sent (snd (handleSubmit flaky (initial_state Map.empty) no_effects)) = []
   \<and> isFormValid (validity_effect ((initial_state Map.empty)\<lparr>formData := filled_form\<rparr>))
   \<and> 0 < length (sent (snd (handleSubmit flaky
          (validity_effect ((initial_state Map.empty)\<lparr>formData := filled_form\<rparr>)) no_effects)))"
proof -
  let ?st = "validity_effect ((initial_state Map.empty)\<lparr>formData := filled_form\<rparr>)"
  have i: "\<not> isFormValid (initial_state Map.empty)"
    by (simp add: initial_state_def validity_effect_def allValid_def validations_def
        Object_values_def empty_form_def validateName_def)
  have v: "allValid filled_form" by code_simp
  then have v': "isFormValid ?st" by (simp add: validity_effect_def)
  show ?thesis
    using form_validity_gates_submit [of "initial_state Map.empty" flaky no_effects Map.empty]
      form_validity_gates_submit [of ?st flaky no_effects Map.empty] i v'
    by (simp add: no_effects_def)
qed

section \<open>Get and delete by identifier\<close>

lemma find_None_id: "(find (\<lambda>d. d_id d = i) xs = None) = (i \<notin> set (map d_id xs))"
  by (auto simp: find_None_iff)

lemma delete_first_absent: "i \<notin> set (map d_id xs) \<Longrightarrow> delete_first (\<lambda>d. d_id d = i) xs = xs"
  by (induction xs) auto

lemma delete_first_length:
  "i \<in> set (map d_id xs) \<Longrightarrow> Suc (length (delete_first (\<lambda>d. d_id d = i) xs)) = length xs"
  by (induction xs) auto

lemma delete_first_set: "set (delete_first P xs) \<subseteq> set xs"
  by (induction xs) auto

lemma delete_first_ids:
  "set (map d_id (delete_first (\<lambda>d. d_id d = i) xs)) \<subseteq> set (map d_id xs)"
  using delete_first_set [of "\<lambda>d. d_id d = i" xs] by auto

lemma delete_first_distinct:
  "distinct (map d_id xs) \<Longrightarrow>
   distinct (map d_id (delete_first (\<lambda>d. d_id d = i) xs))
   \<and> i \<notin> set (map d_id (delete_first (\<lambda>d. d_id d = i) xs))"
proof (induction xs)
  case Nil
  then show ?case by simp
next
  case (Cons x xs)
  show ?case
  proof (cases "d_id x = i")
    case True
    with Cons.prems show ?thesis by auto
  next
    case False
    with Cons have "distinct (map d_id (delete_first (\<lambda>d. d_id d = i) xs))"
      "i \<notin> set (map d_id (delete_first (\<lambda>d. d_id d = i) xs))" by auto
    moreover have "d_id x \<notin> set (map d_id (delete_first (\<lambda>d. d_id d = i) xs))"
      using Cons.prems delete_first_ids [of i xs] by auto
    ultimately show ?thesis using False by auto
  qed
qed

lemma find_Some_id:
  "i \<in> set (map d_id xs) \<Longrightarrow> \<exists>d. find (\<lambda>d. d_id d = i) xs = Some d \<and> d \<in> set xs \<and> d_id d = i"
  by (induction xs) auto

text \<open>
  C5: for get and delete by identifier, an identifier that is not well-formed is
  answered with 400 \<open>Invalid submission ID\<close> and the store untouched, no operation
  issued; a well-formed identifier absent from a working store is answered with the same
  404 \<open>Submission not found\<close> by both; and for one that is present, get returns the
  record, delete confirms, removes exactly one record, and with unique identifiers
  leaves none with that identifier.
\<close>

theorem id_handlers_responses:
  "(\<not> valid_id i \<longrightarrow>
      get_submission valid_id cast env i st = (failure 400 ''Invalid submission ID'', st)
      \<and> delete_submission valid_id cast env i st = (failure 400 ''Invalid submission ID'', st))
   \<and> (valid_id i \<and> store_fault env = None \<and> cast i \<notin> set (map d_id (docs st)) \<longrightarrow>
      get_submission valid_id cast env i st = (failure 404 ''Submission not found'', issue st)
      \<and> delete_submission valid_id cast env i st = (failure 404 ''Submission not found'', issue st))
   \<and> (valid_id i \<and> store_fault env = None \<and> cast i \<in> set (map d_id (docs st)) \<longrightarrow>
      (\<exists>d. d \<in> set (docs st) \<and> d_id d = cast i
          \<and> get_submission valid_id cast env i st = (found d, issue st))
      \<and> fst (delete_submission valid_id cast env i st) = deleted
      \<and> docs (snd (delete_submission valid_id cast env i st))
          = delete_first (\<lambda>d. d_id d = cast i) (docs st)
      \<and> Suc (length (docs (snd (delete_submission valid_id cast env i st)))) = length (docs st)
      \<and> (distinct (map d_id (docs st)) \<longrightarrow>
           cast i \<notin> set (map d_id (docs (snd (delete_submission valid_id cast env i st))))))"
proof -
  have a: "\<not> valid_id i \<Longrightarrow>
      get_submission valid_id cast env i st = (failure 400 ''Invalid submission ID'', st)
      \<and> delete_submission valid_id cast env i st = (failure 400 ''Invalid submission ID'', st)"
    by (simp add: get_submission_def delete_submission_def)
  have b: "get_submission valid_id cast env i st = (failure 404 ''Submission not found'', issue st)
      \<and> delete_submission valid_id cast env i st = (failure 404 ''Submission not found'', issue st)"
    if h: "valid_id i" "store_fault env = None" "cast i \<notin> set (map d_id (docs st))"
  proof -
    have "find (\<lambda>d. d_id d = cast i) (docs st) = None" using h(3) find_None_id [of "cast i" "docs st"] by blast
    moreover have "st\<lparr>docs := delete_first (\<lambda>d. d_id d = cast i) (docs st)\<rparr> = st"
      using delete_first_absent [OF h(3)] by simp
    ultimately show ?thesis using h(1,2)
      by (simp add: get_submission_def delete_submission_def findById_def findByIdAndDelete_def)
  qed
  have c: "(\<exists>d. d \<in> set (docs st) \<and> d_id d = cast i
          \<and> get_submission valid_id cast env i st = (found d, issue st))
      \<and> fst (delete_submission valid_id cast env i st) = deleted
      \<and> docs (snd (delete_submission valid_id cast env i st))
          = delete_first (\<lambda>d. d_id d = cast i) (docs st)
      \<and> Suc (length (docs (snd (delete_submission valid_id cast env i st)))) = length (docs st)
      \<and> (distinct (map d_id (docs st)) \<longrightarrow>
           cast i \<notin> set (map d_id (docs (snd (delete_submission valid_id cast env i st)))))"
    if h: "valid_id i" "store_fault env = None" "cast i \<in> set (map d_id (docs st))"
  proof -
    from find_Some_id [OF h(3)] obtain d where d: "find (\<lambda>d. d_id d = cast i) (docs st) = Some d"
      "d \<in> set (docs st)" "d_id d = cast i" by blast
    have g: "get_submission valid_id cast env i st = (found d, issue st)"
      using h(1,2) d(1) by (simp add: get_submission_def findById_def found_def)
    have del: "delete_submission valid_id cast env i st
        = (deleted, issue (st\<lparr>docs := delete_first (\<lambda>d. d_id d = cast i) (docs st)\<rparr>))"
      using h(1,2) d(1) by (simp add: delete_submission_def findByIdAndDelete_def deleted_def)
    show ?thesis
      using g d(2,3) delete_first_length [OF h(3)] delete_first_distinct [of "docs st" "cast i"]
      unfolding del by (auto simp: issue_def)
  qed
  show ?thesis using a b c by blast
qed

theorem id_handlers_responses_witness:
  "get_submission is_hex24 hex_id example_env (js ''not-an-id'') twelve_records
     = (failure 400 ''Invalid submission ID'', twelve_records)
   \<and> delete_submission is_hex24 hex_id example_env (js ''not-an-id'') twelve_records
     = (failure 400 ''Invalid submission ID'', twelve_records)
   \<and> get_submission is_hex24 hex_id example_env (js ''0000000000000000000000ff'') twelve_records
     = (failure 404 ''Submission not found'', issue twelve_records)
   \<and> delete_submission is_hex24 hex_id example_env (js ''0000000000000000000000ff'') twelve_records
     = (failure 404 ''Submission not found'', issue twelve_records)
   \<and> fst (delete_submission is_hex24 hex_id example_env (js ''00000000000000000000000b'')
          twelve_records) = deleted
   \<and> docs (snd (delete_submission is_hex24 hex_id example_env (js ''00000000000000000000000b'')
          twelve_records)) = map record_at [0..<11]"
proof -
  have bad: "\<not> is_hex24 (js ''not-an-id'')" by code_simp
  have ok: "is_hex24 (js ''0000000000000000000000ff'')" "is_hex24 (js ''00000000000000000000000b'')"
    by code_simp+
  have f: "store_fault example_env = None" by (simp add: example_env_def)
  have ids: "map d_id (docs twelve_records) = [0..<12]"
    by (simp add: twelve_records_def record_at_def comp_def map_idI)
  have v: "hex_id (js ''0000000000000000000000ff'') = 255" "hex_id (js ''00000000000000000000000b'') = 11"
    by code_simp+
  have absent: "hex_id (js ''0000000000000000000000ff'') \<notin> set (map d_id (docs twelve_records))"
    unfolding ids v by simp
  have present: "hex_id (js ''00000000000000000000000b'') \<in> set (map d_id (docs twelve_records))"
    unfolding ids v by simp
  have del: "delete_first (\<lambda>d. d_id d = hex_id (js ''00000000000000000000000b'')) (docs twelve_records)
      = map record_at [0..<11]"
    unfolding v by code_simp
  show ?thesis
    using id_handlers_responses [of is_hex24 "js ''not-an-id''" hex_id example_env twelve_records]
      id_handlers_responses [of is_hex24 "js ''0000000000000000000000ff''" hex_id example_env twelve_records]
      id_handlers_responses [of is_hex24 "js ''00000000000000000000000b''" hex_id example_env twelve_records]
      bad ok f absent present del
    by simp
qed

section \<open>The listing\<close>

lemma parseInt_2: "parseInt (Some (js ''2'')) = Some 2"
  by (simp add: parseInt_def js_def js_whitespace_def digit_value_def digits_value_def)

lemma parseInt_5: "parseInt (Some (js ''5'')) = Some 5"
  by (simp add: parseInt_def js_def js_whitespace_def digit_value_def digits_value_def)

lemma get_submissions_ok:
  assumes "store_fault env = None" "0 \<le> (page_of q - 1) * limit_of q"
  shows "get_submissions env q st =
     (\<lparr>r_status = 200, r_success = True, r_message = None, r_errors = None, r_error = None,
       r_data = Many (take (nat \<bar>limit_of q\<bar>) (drop (nat ((page_of q - 1) * limit_of q)) (newest_first (docs st)))),
       r_pagination = Some \<lparr>current = page_of q,
          total = ceil_div (int (length (docs st))) (limit_of q),
          hasMore = ((page_of q - 1) * limit_of q
             + int (length (take (nat \<bar>limit_of q\<bar>) (drop (nat ((page_of q - 1) * limit_of q)) (newest_first (docs st)))))
             < int (length (docs st)))\<rparr>\<rparr>,
      issue (issue st))"
  using assms
  by (simp add: get_submissions_def Let_def find_sort_skip_limit_def countDocuments_def
      page_of_def limit_of_def newest_first_def issue_def)

lemma newest_first_sorted:
  "sorted_wrt (\<lambda>a b. d_submittedAt b \<le> d_submittedAt a) (newest_first xs)"
proof -
  have "sorted (map (\<lambda>d. - d_submittedAt d) (newest_first xs))"
    unfolding newest_first_def by (rule sorted_sort_key)
  then show ?thesis by (simp add: sorted_map)
qed

lemma get_submissions_sorted:
  assumes "r_data (fst (get_submissions env q st)) = Many l"
  shows "sorted_wrt (\<lambda>a b. d_submittedAt b \<le> d_submittedAt a) l"
proof -
  have "l = take (nat \<bar>limit_of q\<bar>) (drop (nat ((page_of q - 1) * limit_of q)) (newest_first (docs st)))"
    using assms
    by (auto simp add: get_submissions_def Let_def find_sort_skip_limit_def countDocuments_def
      page_of_def limit_of_def newest_first_def failure_def split: option.splits if_splits)
  then show ?thesis
    using newest_first_sorted [of "docs st"] by (simp add: sorted_wrt_take sorted_wrt_drop)
qed

text \<open>
  C4: against a working store of exactly 12 records, \<open>page=2\<close> and \<open>limit=5\<close> return
  exactly 5 records (the sixth to tenth newest) with \<open>current = 2\<close>, \<open>total = 3\<close> and
  \<open>hasMore = true\<close>; an absent parameter means page 1, respectively limit 10; for
  positive page and limit the records are that page of the newest-first order; and the
  records of every listing are in descending order of \<open>submittedAt\<close>. Page and limit
  are exact integers here, as JavaScript's numbers are below \<open>2^53\<close>.
\<close>

theorem get_submissions_pagination:
  "(store_fault env = None \<and> length (docs st) = 12
      \<and> q_page q = Some (js ''2'') \<and> q_limit q = Some (js ''5'') \<longrightarrow>
      r_status (fst (get_submissions env q st)) = 200
      \<and> r_data (fst (get_submissions env q st)) = Many (take 5 (drop 5 (newest_first (docs st))))
      \<and> length (take 5 (drop 5 (newest_first (docs st)))) = 5
      \<and> r_pagination (fst (get_submissions env q st))
          = Some \<lparr>current = 2, total = 3, hasMore = True\<rparr>)
   \<and> (store_fault env = None \<and> q_page q = None \<and> q_limit q = None \<longrightarrow>
      r_status (fst (get_submissions env q st)) = 200
      \<and> r_data (fst (get_submissions env q st)) = Many (take 10 (newest_first (docs st)))
      \<and> r_pagination (fst (get_submissions env q st))
          = Some \<lparr>current = 1, total = ceil_div (int (length (docs st))) 10,
               hasMore = (10 < length (docs st))\<rparr>)
   \<and> (q_page q = None \<longrightarrow> page_of q = 1)
   \<and> (q_limit q = None \<longrightarrow> limit_of q = 10)
   \<and> (store_fault env = None \<and> 0 < page_of q \<and> 0 < limit_of q \<longrightarrow>
      r_status (fst (get_submissions env q st)) = 200
      \<and> r_data (fst (get_submissions env q st))
          = Many (take (nat (limit_of q))
                   (drop (nat ((page_of q - 1) * limit_of q)) (newest_first (docs st))))
      \<and> map_option current (r_pagination (fst (get_submissions env q st))) = Some (page_of q))
   \<and> (r_data (fst (get_submissions env q st)) = Many l \<longrightarrow>
      sorted_wrt (\<lambda>a b. d_submittedAt b \<le> d_submittedAt a) l)"
proof -
  have d: "(q_page q = None \<longrightarrow> page_of q = 1) \<and> (q_limit q = None \<longrightarrow> limit_of q = 10)"
    by (simp add: page_of_def limit_of_def parseInt_def or_default_def)
  have e: "r_status (fst (get_submissions env q st)) = 200
      \<and> r_data (fst (get_submissions env q st))
          = Many (take (nat (limit_of q))
                   (drop (nat ((page_of q - 1) * limit_of q)) (newest_first (docs st))))
      \<and> map_option current (r_pagination (fst (get_submissions env q st))) = Some (page_of q)"
    if h: "store_fault env = None" "0 < page_of q" "0 < limit_of q"
  proof -
    have "0 \<le> (page_of q - 1) * limit_of q" using h(2,3) by simp
    from get_submissions_ok [OF h(1) this, of st] h(3) show ?thesis by simp
  qed
  have a: "r_status (fst (get_submissions env q st)) = 200
      \<and> r_data (fst (get_submissions env q st)) = Many (take 5 (drop 5 (newest_first (docs st))))
      \<and> length (take 5 (drop 5 (newest_first (docs st)))) = 5
      \<and> r_pagination (fst (get_submissions env q st))
          = Some \<lparr>current = 2, total = 3, hasMore = True\<rparr>"
    if h: "store_fault env = None" "length (docs st) = 12"
      "q_page q = Some (js ''2'')" "q_limit q = Some (js ''5'')"
  proof -
    have p: "page_of q = 2" "limit_of q = 5"
      using h(3,4) by (simp_all add: page_of_def limit_of_def parseInt_2 parseInt_5 or_default_def)
    have len: "length (newest_first (docs st)) = 12" using h(2) by (simp add: newest_first_def)
    show ?thesis
      using get_submissions_ok [of env q st] h(1,2) p len by (simp add: ceil_div_def)
  qed
  have b: "r_status (fst (get_submissions env q st)) = 200
      \<and> r_data (fst (get_submissions env q st)) = Many (take 10 (newest_first (docs st)))
      \<and> r_pagination (fst (get_submissions env q st))
          = Some \<lparr>current = 1, total = ceil_div (int (length (docs st))) 10,
               hasMore = (10 < length (docs st))\<rparr>"
    if h: "store_fault env = None" "q_page q = None" "q_limit q = None"
  proof -
    have p: "page_of q = 1" "limit_of q = 10"
      using h(2,3) by (simp_all add: page_of_def limit_of_def parseInt_def or_default_def)
    have len: "length (newest_first (docs st)) = length (docs st)" by (simp add: newest_first_def)
    show ?thesis
      using get_submissions_ok [of env q st] h(1) p len by (auto simp add: min_def)
  qed
  show ?thesis using a b d e get_submissions_sorted [of env q st l] by blast
qed

theorem get_submissions_pagination_witness:
  "r_data (fst (get_submissions example_env \<lparr>q_page = Some (js ''2''), q_limit = Some (js ''5'')\<rparr>
       twelve_records)) = Many (map record_at [6, 5, 4, 3, 2])
   \<and> r_pagination (fst (get_submissions example_env
         \<lparr>q_page = Some (js ''2''), q_limit = Some (js ''5'')\<rparr> twelve_records))
       = Some \<lparr>current = 2, total = 3, hasMore = True\<rparr>
   \<and> r_data (fst (get_submissions example_env \<lparr>q_page = None, q_limit = None\<rparr> twelve_records))
       = Many (map record_at [11, 10, 9, 8, 7, 6, 5, 4, 3, 2])
   \<and> r_pagination (fst (get_submissions example_env \<lparr>q_page = None, q_limit = None\<rparr>
         twelve_records)) = Some \<lparr>current = 1, total = 2, hasMore = True\<rparr>
   \<and> sorted_wrt (\<lambda>a b. d_submittedAt b \<le> d_submittedAt a) (map record_at [6, 5, 4, 3, 2])"
proof -
  let ?q = "\<lparr>q_page = Some (js ''2''), q_limit = Some (js ''5'')\<rparr>"
  let ?d = "\<lparr>q_page = None, q_limit = None\<rparr>"
  have h: "store_fault example_env = None" "length (docs twelve_records) = 12"
    by (simp_all add: example_env_def twelve_records_def)
  have s: "newest_first (docs twelve_records) = map record_at [11, 10, 9, 8, 7, 6, 5, 4, 3, 2, 1, 0]"
    by code_simp
  have c: "ceil_div (int (length (docs twelve_records))) 10 = 2"
    by (simp add: twelve_records_def ceil_div_def)
  have A: "r_data (fst (get_submissions example_env ?q twelve_records)) = Many (map record_at [6, 5, 4, 3, 2])
     \<and> r_pagination (fst (get_submissions example_env ?q twelve_records))
       = Some \<lparr>current = 2, total = 3, hasMore = True\<rparr>"
    using get_submissions_pagination [of example_env twelve_records ?q "map record_at [6, 5, 4, 3, 2]"] h
    by (simp add: s)
  then have S: "sorted_wrt (\<lambda>a b. d_submittedAt b \<le> d_submittedAt a) (map record_at [6, 5, 4, 3, 2])"
    using get_submissions_pagination [of example_env twelve_records ?q "map record_at [6, 5, 4, 3, 2]"]
    by blast
  have B: "r_data (fst (get_submissions example_env ?d twelve_records))
       = Many (map record_at [11, 10, 9, 8, 7, 6, 5, 4, 3, 2])
     \<and> r_pagination (fst (get_submissions example_env ?d twelve_records))
       = Some \<lparr>current = 1, total = 2, hasMore = True\<rparr>"
    using get_submissions_pagination [of example_env twelve_records ?d "[]"] h c
    by (simp add: s)
  show ?thesis using A B S by blast
qed

section \<open>The draft: stringify, then parse\<close>

lemma prepend_Nil: "prepend [] r = r"
  by (cases r) (simp_all add: prepend_def)

lemma cons_unit_prepend: "cons_unit c r = prepend [c] r"
  by (simp add: prepend_def cons_unit_def)

lemma prepend_prepend: "prepend a (prepend b r) = prepend (a @ b) r"
  by (cases r) (simp_all add: prepend_def split: prod.splits)

lemma prepend_Some: "prepend s (Some (v, rest)) = Some (s @ v, rest)"
  by (simp add: prepend_def)

lemma unat_small: "k < 65536 \<Longrightarrow> unat (of_nat k :: jschar) = k"
  by (simp add: unat_of_nat)

lemma hex_value_digit:
  assumes "n < 16" shows "hex_value (hex_digit n) = Some n"
proof (cases "n < 10")
  case True
  then have u: "unat (of_nat (48 + n) :: jschar) = 48 + n" by (intro unat_small) simp
  have "hex_digit n = of_nat (48 + n)" using True by (simp add: hex_digit_def)
  then show ?thesis using True u by (simp add: hex_value_def word_le_nat_alt)
next
  case False
  with assms have u: "unat (of_nat (87 + n) :: jschar) = 87 + n" by (intro unat_small) simp
  have "hex_digit n = of_nat (87 + n)" using False by (simp add: hex_digit_def)
  then show ?thesis using False assms u by (simp add: hex_value_def word_le_nat_alt)
qed

lemma unat_bound: "unat (c :: jschar) < 65536"
  using unsigned_less [of c, where ?'a = nat] by simp

lemma hex_identity:
  "((n div 4096 * 16 + n div 256 mod 16) * 16 + n div 16 mod 16) * 16 + n mod 16 = (n::nat)"
proof -
  have a: "n div 4096 = n div 256 div 16" by (simp add: div_mult2_eq)
  have b: "n div 256 = n div 16 div 16" by (simp add: div_mult2_eq)
  have "n div 4096 * 16 + n div 256 mod 16 = n div 256" unfolding a by simp
  moreover have "n div 256 * 16 + n div 16 mod 16 = n div 16" unfolding b by simp
  ultimately show ?thesis by simp
qed

lemma hex4_digits:
  "hex4 (hex_digit (unat c div 4096)) (hex_digit (unat c div 256 mod 16))
        (hex_digit (unat c div 16 mod 16)) (hex_digit (unat c mod 16)) = Some c"
proof -
  have "unat c div 4096 < 16" using unat_bound [of c] by simp
  then have "hex_value (hex_digit (unat c div 4096)) = Some (unat c div 4096)"
    "hex_value (hex_digit (unat c div 256 mod 16)) = Some (unat c div 256 mod 16)"
    "hex_value (hex_digit (unat c div 16 mod 16)) = Some (unat c div 16 mod 16)"
    "hex_value (hex_digit (unat c mod 16)) = Some (unat c mod 16)"
    by (simp_all add: hex_value_digit)
  then have "hex4 (hex_digit (unat c div 4096)) (hex_digit (unat c div 256 mod 16))
        (hex_digit (unat c div 16 mod 16)) (hex_digit (unat c mod 16))
      = Some (of_nat (((unat c div 4096 * 16 + unat c div 256 mod 16) * 16
           + unat c div 16 mod 16) * 16 + unat c mod 16))"
    by (simp only: hex4_def prod.case option.case)
  also have "\<dots> = Some (of_nat (unat c))" by (simp only: hex_identity)
  finally show ?thesis by simp
qed

lemma parse_unicode_escape:
  "parse_string_chars (unicode_escape c @ rest) = prepend [c] (parse_string_chars rest)"
  by (simp add: unicode_escape_def hex4_digits cons_unit_prepend)

lemma parse_plain:
  "c \<noteq> 0x22 \<Longrightarrow> c \<noteq> 0x5C \<Longrightarrow> \<not> c < 0x20 \<Longrightarrow>
   parse_string_chars (c # rest) = prepend [c] (parse_string_chars rest)"
  by (simp add: cons_unit_prepend)

lemma parse_quote_char:
  "parse_string_chars (quote_char c @ rest) = prepend [c] (parse_string_chars rest)"
proof -
  consider "c = 0x08" | "c = 0x09" | "c = 0x0A" | "c = 0x0C" | "c = 0x0D" | "c = 0x22" | "c = 0x5C"
    | "c \<notin> {0x08, 0x09, 0x0A, 0x0C, 0x0D, 0x22, 0x5C}" "c < 0x20"
    | "c \<notin> {0x08, 0x09, 0x0A, 0x0C, 0x0D, 0x22, 0x5C}" "\<not> c < 0x20"
    by blast
  then show ?thesis
  proof cases
    case 8
    then have "quote_char c = unicode_escape c" by (simp add: quote_char_def)
    then show ?thesis by (simp only: parse_unicode_escape)
  next
    case 9
    then have "quote_char c = [c]" by (simp add: quote_char_def)
    then show ?thesis using 9 by (simp add: cons_unit_prepend)
  qed (simp_all add: quote_char_def simple_escape_def cons_unit_prepend)
qed

lemma surrogate_plain:
  assumes "is_lead c \<or> is_trail c"
  shows "c \<noteq> 0x22" "c \<noteq> 0x5C" "\<not> c < 0x20"
  using assms by (auto simp: is_lead_def is_trail_def word_le_nat_alt word_less_nat_alt)

lemma parse_quote_units:
  "parse_string_chars (quote_units s @ rest) = prepend s (parse_string_chars rest)"
proof (induction s rule: quote_units.induct)
  case 1
  show ?case by (simp add: prepend_Nil)
next
  case (2 c)
  show ?case by (simp add: parse_unicode_escape parse_quote_char)
next
  case (3 c d cs)
  show ?case
  proof (cases "is_lead c \<and> is_trail d")
    case True
    have eq: "quote_units (c # d # cs) = c # d # quote_units cs" using True by simp
    have "parse_string_chars (c # d # quote_units cs @ rest)
        = prepend [c] (prepend [d] (parse_string_chars (quote_units cs @ rest)))"
      using True surrogate_plain [of c] surrogate_plain [of d] by (simp add: cons_unit_prepend)
    also have "\<dots> = prepend (c # d # cs) (parse_string_chars rest)"
      using "3.IH"(1) [OF True] by (simp add: prepend_prepend)
    finally show ?thesis unfolding eq by simp
  next
    case False
    show ?thesis
    proof (cases "is_lead c \<or> is_trail c")
      case True
      have eq: "quote_units (c # d # cs) = unicode_escape c @ quote_units (d # cs)"
        using False True by auto
      show ?thesis unfolding eq
        using "3.IH"(2) [OF False True]
        by (simp only: append_assoc parse_unicode_escape prepend_prepend append_Cons append_Nil)
    next
      case n: False
      have eq: "quote_units (c # d # cs) = quote_char c @ quote_units (d # cs)"
        using False n by auto
      show ?thesis unfolding eq
        using "3.IH"(3) [OF False n]
        by (simp only: append_assoc parse_quote_char prepend_prepend append_Cons append_Nil)
    qed
  qed
qed

lemma parse_QuoteJSONString:
  "parse_string_chars (quote_units s @ 0x22 # rest) = Some (s, rest)"
  by (simp add: parse_quote_units prepend_Some)

lemma skip_ws_keep: "\<not> json_ws c \<Longrightarrow> skip_ws (c # r) = c # r"
  by (simp add: skip_ws_def)

lemma not_ws: "\<not> json_ws 0x22" "\<not> json_ws 0x3A" "\<not> json_ws 0x2C" "\<not> json_ws 0x7D" "\<not> json_ws 0x7B"
  by (simp_all add: json_ws_def)

lemma parse_value_string:
  "parse_value (Suc n) (QuoteJSONString v @ rest) = Some (JString v, rest)"
  by (simp add: QuoteJSONString_def skip_ws_keep not_ws parse_QuoteJSONString
      del: parse_string_chars.simps)

lemma member_unfold:
  "member k v @ rest = 0x22 # quote_units (js k) @ 0x22 # 0x3A # QuoteJSONString v @ rest"
  by (simp add: member_def QuoteJSONString_def)

lemma parse_members_continue:
  "parse_members (Suc (Suc n)) acc (member k v @ 0x2C # rest)
     = parse_members (Suc n) (acc @ [(js k, JString v)]) rest"
  unfolding member_unfold
  by (subst parse_members.simps(2))
     (simp add: skip_ws_keep not_ws parse_QuoteJSONString parse_value_string
      del: parse_string_chars.simps parse_value.simps parse_members.simps)

lemma parse_members_last:
  "parse_members (Suc (Suc n)) acc (member k v @ 0x7D # rest)
     = Some (acc @ [(js k, JString v)], rest)"
  unfolding member_unfold
  by (subst parse_members.simps(2))
     (simp add: skip_ws_keep not_ws parse_QuoteJSONString parse_value_string
      del: parse_string_chars.simps parse_value.simps parse_members.simps)

lemma parse_value_object:
  "parse_members n [] (0x22 # t) = Some (ms, r) \<Longrightarrow>
   parse_value (Suc n) (0x7B # 0x22 # t) = Some (JObject ms, r)"
  by (simp add: skip_ws_keep not_ws del: parse_members.simps)

lemma parse_value_stringify:
  "parse_value (Suc (Suc (Suc (Suc (Suc (Suc (Suc n))))))) (JSON_stringify fd) = Some (draft_object fd, [])"
proof -
  let ?m5 = "member ''modelNumber'' (modelNumber fd) @ [0x7D]"
  let ?m4 = "member ''description'' (description fd) @ 0x2C # ?m5"
  let ?m3 = "member ''erCode'' (erCode fd) @ 0x2C # ?m4"
  let ?m2 = "member ''productLine'' (productLine fd) @ 0x2C # ?m3"
  let ?m1 = "member ''name'' (name fd) @ 0x2C # ?m2"
  have s: "JSON_stringify fd = 0x7B # ?m1" by (simp add: JSON_stringify_def)
  have h: "?m1 = 0x22 # quote_units (js ''name'') @ 0x22 # 0x3A # QuoteJSONString (name fd) @ 0x2C # ?m2"
    by (simp only: member_unfold)
  have "parse_members (Suc (Suc (Suc (Suc (Suc (Suc n)))))) [] ?m1
      = Some ([(js ''name'', JString (name fd)), (js ''productLine'', JString (productLine fd)),
       (js ''erCode'', JString (erCode fd)), (js ''description'', JString (description fd)),
       (js ''modelNumber'', JString (modelNumber fd))], [])"
    by (simp only: parse_members_continue parse_members_last append_Nil append_Cons)
  then show ?thesis
    unfolding s draft_object_def h by (rule parse_value_object)
qed

lemma length_member: "5 \<le> length (member k v)"
  by (simp add: member_def QuoteJSONString_def)

lemma length_stringify: "\<exists>n. length (JSON_stringify fd) = 6 + n"
proof -
  have "6 \<le> length (JSON_stringify fd)"
    using length_member [of "''name''" "name fd"] by (simp add: JSON_stringify_def)
  then show ?thesis by presburger
qed

lemma JSON_parse_stringify: "JSON_parse (JSON_stringify fd) = Some (draft_object fd)"
proof -
  obtain n where n: "length (JSON_stringify fd) = 6 + n" using length_stringify by blast
  have "Suc (length (JSON_stringify fd)) = Suc (Suc (Suc (Suc (Suc (Suc (Suc n))))))"
    unfolding n by simp
  then show ?thesis
    by (simp add: JSON_parse_def parse_value_stringify skip_ws_def del: parse_value.simps)
qed

lemma as_formData_draft: "as_formData (draft_object fd) = Some fd"
  by (simp add: as_formData_def draft_object_def string_member_def js_def)

lemma stringify_nonempty: "JSON_stringify fd \<noteq> []"
  by (simp add: JSON_stringify_def)

text \<open>
  C8: for every form data of five strings, \<open>JSON.parse\<close> of its \<open>JSON.stringify\<close>
  succeeds and is the object with the same five string members; saving a draft stores
  that text under the draft key; and mounting the form on that storage restores exactly
  the saved form data.
\<close>

theorem draft_round_trip:
  "JSON_parse (JSON_stringify fd) = Some (draft_object fd)
   \<and> as_formData (draft_object fd) = Some fd
   \<and> localStorage (handleSaveDraft True st) DRAFT_KEY = Some (JSON_stringify (formData st))
   \<and> mount (localStorage (handleSaveDraft True st))
       = Some (validity_effect ((initial_state (localStorage (handleSaveDraft True st)))
                 \<lparr>formData := formData st, hasDraft := True\<rparr>))
   \<and> map_option formData (mount (localStorage (handleSaveDraft True st))) = Some (formData st)"
proof -
  have s: "localStorage (handleSaveDraft True st) DRAFT_KEY = Some (JSON_stringify (formData st))"
    by (simp add: handleSaveDraft_def)
  have l: "localStorage (initial_state ls) = ls" for ls
    by (simp add: initial_state_def validity_effect_def)
  have m: "mount (localStorage (handleSaveDraft True st))
       = Some (validity_effect ((initial_state (localStorage (handleSaveDraft True st)))
                 \<lparr>formData := formData st, hasDraft := True\<rparr>))"
    by (simp add: mount_def load_draft_def l s stringify_nonempty JSON_parse_stringify
        as_formData_draft)
  have "map_option formData (mount (localStorage (handleSaveDraft True st))) = Some (formData st)"
    unfolding m by (simp add: validity_effect_def)
  with s m show ?thesis by (simp add: JSON_parse_stringify as_formData_draft)
qed

theorem draft_round_trip_witness:
  "map_option formData (mount (localStorage (handleSaveDraft True
       ((initial_state Map.empty)\<lparr>formData := awkward_form\<rparr>)))) = Some awkward_form
   \<and> JSON_stringify filled_form
       = js ''{\"name\":\"Ada Lovelace\",\"productLine\":\"AB-12\",\"erCode\":\"ER123456\",\"description\":\"A long enough description\",\"modelNumber\":\"AB1234C\"}''"
proof -
  let ?st = "(initial_state Map.empty)\<lparr>formData := awkward_form\<rparr>"
  have a: "JSON_stringify filled_form
       = js ''{\"name\":\"Ada Lovelace\",\"productLine\":\"AB-12\",\"erCode\":\"ER123456\",\"description\":\"A long enough description\",\"modelNumber\":\"AB1234C\"}''"
    by code_simp
  from draft_round_trip [of awkward_form ?st]
  have "map_option formData (mount (localStorage (handleSaveDraft True ?st))) = Some (formData ?st)"
    by blast
  then show ?thesis using a by simp
qed

end
